theory Spec2Isabelle
  imports Main "HOL-Library.Word"
begin

section \<open>Peer registry\<close>

text \<open>
  A peer handle is the \<open>PeerId = bigint\<close> of \<open>index.d.ts\<close>: the native addon
  hands out the transport's peer pointer as an unsigned 64-bit BigInt. JavaScript BigInts are
  unbounded, so a handle is an \<open>int\<close> here and the addon's range checks are written out in
  \<open>JsValueToPeer\<close> below.

  \<open>this.peers\<close> is a JavaScript \<open>Map\<close>: its iteration order is insertion order,
  \<open>set\<close> on a present key keeps the key's position, \<open>delete\<close> removes the entry.
  The order matters to \<open>broadcast\<close>, so the registry is an association list.
\<close>

type_synonym peer_id = int

type_synonym byte = "8 word"

record peer_record =
  connected :: bool
  address :: "string option"
  port :: "int option"

type_synonym registry = "(peer_id \<times> peer_record) list"

definition Map_has :: "peer_id \<Rightarrow> registry \<Rightarrow> bool" where
  "Map_has k m = (map_of m k \<noteq> None)"

definition Map_get :: "peer_id \<Rightarrow> registry \<Rightarrow> peer_record option" where
  "Map_get k m = map_of m k"

fun Map_set :: "peer_id \<Rightarrow> peer_record \<Rightarrow> registry \<Rightarrow> registry" where
  "Map_set k v [] = [(k, v)]"
| "Map_set k v ((k', v') # m) = (if k = k' then (k, v) # m else (k', v') # Map_set k v m)"

definition Map_delete :: "peer_id \<Rightarrow> registry \<Rightarrow> registry" where
  "Map_delete k m = filter (\<lambda>e. fst e \<noteq> k) m"

section \<open>Events, subscribers and the session state\<close>

text \<open>
  The event object built by \<open>ENetWrapper::HostService\<close>: its \<open>type\<close> is one of
  \<open>'connect'\<close>, \<open>'disconnect'\<close>, \<open>'receive'\<close>, \<open>'unknown'\<close>.
\<close>

datatype event =
    Connect peer_id
  | Disconnect peer_id int
  | Receive peer_id int "byte list"
  | Unknown

text \<open>What \<open>emit\<close> hands to a callback: an event object, an \<open>Error\<close> with its message,
  or nothing (\<open>emit('ready')\<close>).\<close>

datatype payload = Ev event | Err string | Undefined

text \<open>
  Callbacks are compared by identity (\<open>indexOf\<close> in \<open>off\<close>), so each function value of
  the source gets a name:
  \<^item> \<open>Handler n\<close> is the \<open>n\<close>-th function of the application. The application's code is
    outside the library; it is modelled as an observer whose call is recorded in
    \<open>delivered\<close>. An exception it raises is caught by \<open>emit\<close> and only logged to the
    console, so it changes nothing here.
  \<^item> \<open>Wrapped eventType cb\<close> is the closure \<open>wrapped\<close> that \<open>once(eventType, cb)\<close>
    creates.
  \<^item> \<open>OnConnected k\<close> is the closure \<open>onConnected\<close> of the \<open>k\<close>-th call of
    \<open>Client.connect\<close> with a timeout.
\<close>

datatype callback = Handler nat | Wrapped string callback | OnConnected nat

text \<open>The variables the promise executor of \<open>Client.connect\<close> closes over: the
  \<open>timer\<close> variable and the state of the promise.\<close>

datatype timer = NoTimer | Armed | Cleared | Expired

datatype promise = Pending | Resolved | Rejected string

record race =
  timer :: timer
  outcome :: promise

text \<open>Calls that reach the native addon, in order.\<close>

datatype js_data =
    Buffer "byte list"
  | String string
  | TypedArray "byte list"
  | ArrayBuffer "byte list"
  | Other

datatype native_call =
    N_createHost "(string \<times> int) option" int
  | N_setCompression bool
  | N_setChecksum bool
  | N_setNewPacket bool bool
  | N_hostService int
  | N_connect string int int int
  | N_sendPacket peer_id int js_data int
  | N_sendRawPacket peer_id int js_data int
  | N_disconnect peer_id int
  | N_disconnectNow peer_id int
  | N_disconnectLater peer_id int
  | N_destroyHost

text \<open>
  \<open>config\<close> is the object the constructors of \<open>Server\<close> and \<open>Client\<close> build. A field
  that a constructor does not write is \<open>undefined\<close> in JavaScript: \<open>None\<close> for
  \<open>checksum\<close> and \<open>compression\<close>, and \<open>False\<close> for the two new-packet flags, which the
  code only ever tests for truthiness. A client has no \<open>maxPeer\<close>; the field is \<open>0\<close>
  there and never read.
\<close>

record config =
  ip :: string
  cfg_port :: int
  maxPeer :: int
  channelLimit :: int
  usingNewPacket :: bool
  usingNewPacketForServer :: bool
  incomingBandwidth :: int
  outgoingBandwidth :: int
  checksum :: "bool option"
  compression :: "bool option"

text \<open>
  The fields of \<open>ENetBase\<close> and of \<open>Client\<close> (\<open>serverPeer\<close>), the two fields of the
  native \<open>ENetWrapper\<close> object that the session owns (\<open>host\<close>, \<open>initialized\<close>), the
  closures of the pending \<open>connect\<close> calls, and three histories that make the effects
  visible: every \<open>emit\<close> call, every call of an application callback, every call into
  the addon.
\<close>

record session =
  peers :: registry
  eventCallbacks :: "string \<rightharpoonup> callback list"
  running :: bool
  hostCreated :: bool
  serverPeer :: "peer_id option"
  session_config :: config
  native_host :: bool
  native_initialized :: bool
  races :: "nat \<Rightarrow> race"
  next_race :: nat
  emitted :: "(string \<times> payload) list"
  delivered :: "(nat \<times> payload) list"
  native_log :: "native_call list"

section \<open>The event bus\<close>

definition on :: "string \<Rightarrow> callback \<Rightarrow> session \<Rightarrow> session" where
  "on eventType cb s =
     (case eventCallbacks s eventType of
        None \<Rightarrow> s
      | Some list \<Rightarrow> s\<lparr>eventCallbacks := (eventCallbacks s)(eventType \<mapsto> list @ [cb])\<rparr>)"

text \<open>\<open>indexOf\<close> finds the first identical entry and \<open>splice(idx, 1)\<close> removes it.\<close>

definition off :: "string \<Rightarrow> callback \<Rightarrow> session \<Rightarrow> session" where
  "off eventType cb s =
     (case eventCallbacks s eventType of
        None \<Rightarrow> s
      | Some list \<Rightarrow> s\<lparr>eventCallbacks := (eventCallbacks s)(eventType \<mapsto> remove1 cb list)\<rparr>)"

definition once :: "string \<Rightarrow> callback \<Rightarrow> session \<Rightarrow> session" where
  "once eventType cb s = on eventType (Wrapped eventType cb) s"

text \<open>\<open>evt.peer\<close>; \<open>undefined\<close> where the payload has no such field.\<close>

fun payload_peer :: "payload \<Rightarrow> peer_id option" where
  "payload_peer (Ev (Connect p)) = Some p"
| "payload_peer (Ev (Disconnect p d)) = Some p"
| "payload_peer (Ev (Receive p c b)) = Some p"
| "payload_peer (Ev Unknown) = None"
| "payload_peer (Err m) = None"
| "payload_peer Undefined = None"

text \<open>Truthiness of \<open>this.serverPeer\<close>: \<open>null\<close> and \<open>0n\<close> are falsy.\<close>

fun truthy_peer :: "peer_id option \<Rightarrow> bool" where
  "truthy_peer None = False"
| "truthy_peer (Some p) = (p \<noteq> 0)"

text \<open>\<open>if (timer) clearTimeout(timer)\<close>: a timer that has already run is not affected.\<close>

definition clearTimeout :: "nat \<Rightarrow> session \<Rightarrow> session" where
  "clearTimeout k s =
     (if timer (races s k) = Armed
      then s\<lparr>races := (races s)(k := (races s k)\<lparr>timer := Cleared\<rparr>)\<rparr>
      else s)"

text \<open>\<open>resolve()\<close> and \<open>reject(err)\<close> settle a promise once; later calls do nothing.\<close>

definition resolve :: "nat \<Rightarrow> session \<Rightarrow> session" where
  "resolve k s =
     (if outcome (races s k) = Pending
      then s\<lparr>races := (races s)(k := (races s k)\<lparr>outcome := Resolved\<rparr>)\<rparr>
      else s)"

definition reject :: "nat \<Rightarrow> string \<Rightarrow> session \<Rightarrow> session" where
  "reject k msg s =
     (if outcome (races s k) = Pending
      then s\<lparr>races := (races s)(k := (races s k)\<lparr>outcome := Rejected msg\<rparr>)\<rparr>
      else s)"

text \<open>Running one callback on a payload.\<close>

fun call :: "callback \<Rightarrow> payload \<Rightarrow> session \<Rightarrow> session" where
  "call (Handler n) d s = s\<lparr>delivered := delivered s @ [(n, d)]\<rparr>"
| "call (Wrapped eventType cb) d s = call cb d (off eventType (Wrapped eventType cb) s)"
| "call (OnConnected k) d s =
     (if truthy_peer (serverPeer s) \<and> d \<noteq> Undefined \<and> payload_peer d = serverPeer s
      then resolve k (off ''connect'' (OnConnected k) (clearTimeout k s))
      else s)"

text \<open>
  \<open>Array.prototype.forEach\<close> reads the length once, then visits the indices
  \<open>0 .. len - 1\<close> of the live array, skipping an index that is no longer present. A
  callback that removes itself while it runs therefore shifts its successor into the index
  just visited. \<open>forEach\<close> below has the index \<open>k\<close> and the number of indices left.
\<close>

definition visit :: "string \<Rightarrow> payload \<Rightarrow> nat \<Rightarrow> session \<Rightarrow> session" where
  "visit eventType d k s =
     (case eventCallbacks s eventType of
        None \<Rightarrow> s
      | Some list \<Rightarrow> if k < length list then call (list ! k) d s else s)"

fun forEach :: "string \<Rightarrow> payload \<Rightarrow> nat \<Rightarrow> nat \<Rightarrow> session \<Rightarrow> session" where
  "forEach eventType d k 0 s = s"
| "forEach eventType d k (Suc left) s = forEach eventType d (Suc k) left (visit eventType d k s)"

definition emit :: "string \<Rightarrow> payload \<Rightarrow> session \<Rightarrow> session" where
  "emit eventType d s =
     (let s' = s\<lparr>emitted := emitted s @ [(eventType, d)]\<rparr>
      in case eventCallbacks s eventType of
           None \<Rightarrow> s'
         | Some list \<Rightarrow> forEach eventType d 0 (length list) s')"

section \<open>Handling one event\<close>

text \<open>
  \<open>handleEvent\<close>. Nothing inside its \<open>try\<close> block raises: \<open>emit\<close> catches what the
  callbacks throw, and \<open>get\<close> is only dereferenced after \<open>has\<close>.
\<close>

fun handleEvent :: "event \<Rightarrow> session \<Rightarrow> session" where
  "handleEvent (Connect p) s =
     emit ''connect'' (Ev (Connect p))
       (case Map_get p (peers s) of
          Some r \<Rightarrow> s\<lparr>peers := Map_set p (r\<lparr>connected := True\<rparr>) (peers s)\<rparr>
        | None \<Rightarrow> s\<lparr>peers := Map_set p \<lparr>connected = True, address = None, port = None\<rparr> (peers s)\<rparr>)"
| "handleEvent (Disconnect p d) s =
     emit ''disconnect'' (Ev (Disconnect p d))
       (if Map_has p (peers s) then s\<lparr>peers := Map_delete p (peers s)\<rparr> else s)"
| "handleEvent (Receive p c b) s = emit ''receive'' (Ev (Receive p c b)) s"
| "handleEvent Unknown s = emit ''error'' (Err ''Unknown event type: unknown'') s"

section \<open>The native addon, as the session sees it\<close>

text \<open>
  The transport engine (the ENet library) is not part of the repository. What it answers
  is a parameter: whether an address parses, whether a host or a packet could be
  allocated, the pointer \<open>enet_host_connect\<close> returns (\<open>0\<close> for \<open>NULL\<close>) and the
  status \<open>enet_peer_send\<close> returns for a peer.
\<close>

record engine =
  address_ok :: bool
  host_create_ok :: bool
  host_connect :: "64 word"
  packet_create_ok :: bool
  peer_send :: "peer_id \<Rightarrow> int"

text \<open>
  \<open>JsValueToPeer\<close> followed by the test \<open>!ok || !peer\<close>: a BigInt converts when it is
  a lossless unsigned 64-bit value, and the pointer must not be null.
\<close>

definition JsValueToPeer :: "peer_id \<Rightarrow> bool" where
  "JsValueToPeer p = (0 < p \<and> p < 2 ^ 64)"

text \<open>
  A native method either throws a \<open>TypeError\<close> (\<open>Inl\<close>, with its message) or
  returns. \<open>SendPacket\<close> takes the payload when \<open>IsBuffer()\<close> or \<open>IsString()\<close> holds.
  \<open>IsBuffer()\<close> is \<open>napi_is_buffer\<close>, which holds for a Node \<open>Buffer\<close> and for every
  typed array, and not for a bare \<open>ArrayBuffer\<close>.
\<close>

definition native_sendPacket :: "engine \<Rightarrow> peer_id \<Rightarrow> js_data \<Rightarrow> string + int" where
  "native_sendPacket eng peerId d =
     (if \<not> JsValueToPeer peerId then Inl ''Invalid peer id''
      else case d of
          Buffer b \<Rightarrow> if packet_create_ok eng then Inr (peer_send eng peerId)
                      else Inl ''Failed to create packet''
        | TypedArray b \<Rightarrow> if packet_create_ok eng then Inr (peer_send eng peerId)
                          else Inl ''Failed to create packet''
        | String t \<Rightarrow> if packet_create_ok eng then Inr (peer_send eng peerId)
                      else Inl ''Failed to create packet''
        | ArrayBuffer b \<Rightarrow> Inl ''Data must be a Buffer or string''
        | Other \<Rightarrow> Inl ''Data must be a Buffer or string'')"

definition native_sendRawPacket :: "engine \<Rightarrow> peer_id \<Rightarrow> js_data \<Rightarrow> string + int" where
  "native_sendRawPacket eng peerId d =
     (if \<not> JsValueToPeer peerId then Inl ''Invalid peer id''
      else case d of
          Other \<Rightarrow> Inl ''Data must be a Buffer, TypedArray, or ArrayBuffer for raw packet''
        | String t \<Rightarrow> Inl ''Data must be a Buffer, TypedArray, or ArrayBuffer for raw packet''
        | _ \<Rightarrow> if packet_create_ok eng then Inr (peer_send eng peerId)
               else Inl ''Failed to create raw packet'')"

text \<open>\<open>Disconnect\<close>, \<open>DisconnectNow\<close> and \<open>DisconnectLater\<close> of the addon check the
  handle the same way and then call the engine, which returns nothing.\<close>

definition native_disconnect :: "peer_id \<Rightarrow> string + unit" where
  "native_disconnect peerId = (if JsValueToPeer peerId then Inr () else Inl ''Invalid peer id'')"

section \<open>Sending and disconnecting\<close>

text \<open>Each function returns the value the JavaScript returns together with the session
  after the call.\<close>

definition send :: "engine \<Rightarrow> peer_id \<Rightarrow> int \<Rightarrow> js_data \<Rightarrow> bool \<Rightarrow> session \<Rightarrow> int \<times> session" where
  "send eng peerId channelId d reliable s =
     (let flags = (if reliable then 1 else 0);
          s1 = s\<lparr>native_log := native_log s @ [N_sendPacket peerId channelId d flags]\<rparr>
      in case native_sendPacket eng peerId d of
           Inr status \<Rightarrow> (status, s1)
         | Inl err \<Rightarrow> (- 1, emit ''error'' (Err err) s1))"

definition sendRawPacket :: "engine \<Rightarrow> peer_id \<Rightarrow> int \<Rightarrow> js_data \<Rightarrow> int \<Rightarrow> session \<Rightarrow> int \<times> session" where
  "sendRawPacket eng peerId channelId d flags s =
     (let s1 = s\<lparr>native_log := native_log s @ [N_sendRawPacket peerId channelId d flags]\<rparr>
      in case native_sendRawPacket eng peerId d of
           Inr status \<Rightarrow> (status, s1)
         | Inl err \<Rightarrow> (- 1, emit ''error'' (Err err) s1))"

definition disconnect :: "peer_id \<Rightarrow> int \<Rightarrow> session \<Rightarrow> session" where
  "disconnect peerId d s =
     (let s1 = s\<lparr>native_log := native_log s @ [N_disconnect peerId d]\<rparr>
      in case native_disconnect peerId of
           Inr u \<Rightarrow> s1\<lparr>peers := Map_delete peerId (peers s1)\<rparr>
         | Inl err \<Rightarrow> emit ''error'' (Err err) s1)"

definition disconnectNow :: "peer_id \<Rightarrow> int \<Rightarrow> session \<Rightarrow> session" where
  "disconnectNow peerId d s =
     (let s1 = s\<lparr>native_log := native_log s @ [N_disconnectNow peerId d]\<rparr>
      in case native_disconnect peerId of
           Inr u \<Rightarrow> s1\<lparr>peers := Map_delete peerId (peers s1)\<rparr>
         | Inl err \<Rightarrow> emit ''error'' (Err err) s1)"

definition disconnectLater :: "peer_id \<Rightarrow> int \<Rightarrow> session \<Rightarrow> session" where
  "disconnectLater peerId d s =
     (let s1 = s\<lparr>native_log := native_log s @ [N_disconnectLater peerId d]\<rparr>
      in case native_disconnect peerId of
           Inr u \<Rightarrow> s1\<lparr>peers := Map_delete peerId (peers s1)\<rparr>
         | Inl err \<Rightarrow> emit ''error'' (Err err) s1)"

datatype variant = Graceful | Now | Later

fun disconnect_variant :: "variant \<Rightarrow> peer_id \<Rightarrow> int \<Rightarrow> session \<Rightarrow> session" where
  "disconnect_variant Graceful = disconnect"
| "disconnect_variant Now = disconnectNow"
| "disconnect_variant Later = disconnectLater"

section \<open>Broadcast\<close>

text \<open>
  \<open>for (const [peerId, peerInfo] of this.peers)\<close> walks the entries in insertion order.
  \<open>super.send\<close> does not touch the registry and never throws, so the \<open>catch\<close> of
  \<open>broadcast\<close> is never entered; the status \<open>send\<close> returns is dropped.
\<close>

fun broadcast_loop :: "engine \<Rightarrow> int \<Rightarrow> js_data \<Rightarrow> bool \<Rightarrow> registry \<Rightarrow> session \<Rightarrow> session" where
  "broadcast_loop eng channelId d reliable [] s = s"
| "broadcast_loop eng channelId d reliable ((peerId, peerInfo) # rest) s =
     broadcast_loop eng channelId d reliable rest
       (if connected peerInfo then snd (send eng peerId channelId d reliable s) else s)"

definition broadcast :: "engine \<Rightarrow> int \<Rightarrow> js_data \<Rightarrow> bool \<Rightarrow> session \<Rightarrow> session" where
  "broadcast eng channelId d reliable s = broadcast_loop eng channelId d reliable (peers s) s"

section \<open>The client's instance-level methods\<close>

definition client_send :: "engine \<Rightarrow> int \<Rightarrow> js_data \<Rightarrow> bool \<Rightarrow> session \<Rightarrow> int \<times> session" where
  "client_send eng channelId d reliable s =
     (if truthy_peer (serverPeer s)
      then send eng (the (serverPeer s)) channelId d reliable s
      else (- 1, emit ''error'' (Err ''Not connected to server'') s))"

definition client_sendRawPacket :: "engine \<Rightarrow> int \<Rightarrow> js_data \<Rightarrow> int \<Rightarrow> session \<Rightarrow> int \<times> session" where
  "client_sendRawPacket eng channelId d flags s =
     (if truthy_peer (serverPeer s)
      then sendRawPacket eng (the (serverPeer s)) channelId d flags s
      else (- 1, emit ''error'' (Err ''Not connected to server'') s))"

definition client_disconnect :: "int \<Rightarrow> session \<Rightarrow> session" where
  "client_disconnect d s =
     (if truthy_peer (serverPeer s)
      then (disconnect (the (serverPeer s)) d s)\<lparr>serverPeer := None\<rparr>
      else s)"

definition client_disconnectNow :: "int \<Rightarrow> session \<Rightarrow> session" where
  "client_disconnectNow d s =
     (if truthy_peer (serverPeer s)
      then (disconnectNow (the (serverPeer s)) d s)\<lparr>serverPeer := None\<rparr>
      else s)"

definition client_disconnectLater :: "int \<Rightarrow> session \<Rightarrow> session" where
  "client_disconnectLater d s =
     (if truthy_peer (serverPeer s)
      then (disconnectLater (the (serverPeer s)) d s)\<lparr>serverPeer := None\<rparr>
      else s)"

fun client_disconnect_variant :: "variant \<Rightarrow> int \<Rightarrow> session \<Rightarrow> session" where
  "client_disconnect_variant Graceful = client_disconnect"
| "client_disconnect_variant Now = client_disconnectNow"
| "client_disconnect_variant Later = client_disconnectLater"

section \<open>Polling\<close>

text \<open>What \<open>enet_host_service\<close> answers to one poll: an event (result \<open>> 0\<close>), nothing
  (\<open>0\<close>) or a failure (\<open>< 0\<close>).\<close>

datatype poll = Ready event | Idle | Failed

definition service :: "int \<Rightarrow> poll \<Rightarrow> session \<Rightarrow> (string + event option) \<times> session" where
  "service timeout answer s =
     (if \<not> hostCreated s then (Inr None, s)
      else let s1 = s\<lparr>native_log := native_log s @ [N_hostService timeout]\<rparr>
           in if \<not> native_host s1 then (Inl ''Host not created'', s1)
              else case answer of
                  Failed \<Rightarrow> (Inl ''Error occurred during host service'', s1)
                | Idle \<Rightarrow> (Inr None, s1)
                | Ready e \<Rightarrow> (Inr (Some e), handleEvent e s1))"

definition stop :: "session \<Rightarrow> session" where
  "stop s = s\<lparr>running := False\<rparr>"

text \<open>
  One entry per iteration of the loop of \<open>listen\<close> that reached \<open>service\<close>: the value of
  \<open>currentInterval\<close> passed to \<open>service\<close>, what \<open>service\<close> did, and the value of
  \<open>currentInterval\<close> at the end of the iteration (the time slept).
\<close>

datatype serviced = Produced | Nothing | Threw

record iteration =
  interval :: int
  result :: serviced
  after :: int

text \<open>
  The loop runs as long as the environment keeps answering. One \<open>tick\<close> is the answer of
  the transport to the poll of one iteration, and whether the application calls
  \<open>stop()\<close> while the loop sleeps. When the answers run out the loop is still suspended
  in its \<open>await\<close>. Intervals are JavaScript numbers holding whole milliseconds.
\<close>

type_synonym tick = "poll \<times> bool"

fun listen_loop :: "int \<Rightarrow> int \<Rightarrow> int \<Rightarrow> tick list \<Rightarrow> session \<Rightarrow> iteration list \<times> session" where
  "listen_loop pollIntervalMs maxPollIntervalMs currentInterval [] s = ([], s)"
| "listen_loop pollIntervalMs maxPollIntervalMs currentInterval ((answer, stopped) # ticks) s =
     (if \<not> running s then ([], s)
      else case service currentInterval answer s of
          (Inl err, s1) \<Rightarrow>
            ([\<lparr>interval = currentInterval, result = Threw, after = currentInterval\<rparr>],
             emit ''error'' (Err err) s1)
        | (Inr event, s1) \<Rightarrow>
            (let next = (if event \<noteq> None then pollIntervalMs
                         else min (currentInterval * 2) maxPollIntervalMs);
                 s2 = (if stopped then stop s1 else s1);
                 rest = listen_loop pollIntervalMs maxPollIntervalMs next ticks s2
             in (\<lparr>interval = currentInterval,
                   result = (if event \<noteq> None then Produced else Nothing),
                   after = next\<rparr> # fst rest, snd rest)))"

definition listen :: "int \<Rightarrow> int \<Rightarrow> tick list \<Rightarrow> session \<Rightarrow> iteration list \<times> session" where
  "listen pollIntervalMs maxPollIntervalMs ticks s =
     listen_loop pollIntervalMs maxPollIntervalMs pollIntervalMs ticks (s\<lparr>running := True\<rparr>)"

section \<open>Creating the host\<close>

text \<open>The repository ships the library twice: \<open>index.js\<close> (CommonJS) and
  \<open>index.mjs\<close> (ES module). They differ in the constructors and in \<open>setupHost\<close>.\<close>

datatype build = CJS | ESM

record options =
  o_ip :: "string option"
  o_address :: "string option"
  o_port :: "int option"
  o_maxPeer :: "int option"
  o_channelLimit :: "int option"
  o_usingNewPacket :: "bool option"
  o_usingNewPacketForServer :: "bool option"
  o_incomingBandwidth :: "int option"
  o_outgoingBandwidth :: "int option"
  o_checksum :: "bool option"
  o_compression :: "bool option"

text \<open>\<open>a || b\<close> on an optional string or number: \<open>undefined\<close>, the empty string and
  \<open>0\<close> are falsy. \<open>!!x\<close> on an optional boolean.\<close>

fun or_string :: "string option \<Rightarrow> string \<Rightarrow> string" where
  "or_string None d = d"
| "or_string (Some v) d = (if v = [] then d else v)"

fun or_int :: "int option \<Rightarrow> int \<Rightarrow> int" where
  "or_int None d = d"
| "or_int (Some v) d = (if v = 0 then d else v)"

fun truthy :: "bool option \<Rightarrow> bool" where
  "truthy None = False"
| "truthy (Some b) = b"

definition Server_config :: "build \<Rightarrow> options \<Rightarrow> config" where
  "Server_config b opts =
     \<lparr>ip = or_string (o_ip opts) (or_string (o_address opts) ''127.0.0.1''),
      cfg_port = or_int (o_port opts) 17091,
      maxPeer = or_int (o_maxPeer opts) 32,
      channelLimit = or_int (o_channelLimit opts) 2,
      usingNewPacket = False,
      usingNewPacketForServer = truthy (o_usingNewPacketForServer opts),
      incomingBandwidth = or_int (o_incomingBandwidth opts) 0,
      outgoingBandwidth = or_int (o_outgoingBandwidth opts) 0,
      checksum = (case b of CJS \<Rightarrow> Some (truthy (o_checksum opts)) | ESM \<Rightarrow> None),
      compression = (case b of CJS \<Rightarrow> Some (truthy (o_compression opts)) | ESM \<Rightarrow> None)\<rparr>"

definition Client_config :: "build \<Rightarrow> options \<Rightarrow> config" where
  "Client_config b opts =
     \<lparr>ip = or_string (o_ip opts) (or_string (o_address opts) ''127.0.0.1''),
      cfg_port = or_int (o_port opts) 17091,
      maxPeer = 0,
      channelLimit = or_int (o_channelLimit opts) 2,
      usingNewPacket = truthy (o_usingNewPacket opts),
      usingNewPacketForServer = False,
      incomingBandwidth = or_int (o_incomingBandwidth opts) 0,
      outgoingBandwidth = or_int (o_outgoingBandwidth opts) 0,
      checksum = (case b of CJS \<Rightarrow> Some (truthy (o_checksum opts)) | ESM \<Rightarrow> None),
      compression = (case b of CJS \<Rightarrow> Some (truthy (o_compression opts)) | ESM \<Rightarrow> None)\<rparr>"

text \<open>The state the constructor of \<open>ENetBase\<close> builds, for a given \<open>config\<close>, once
  \<open>this.initialize()\<close> has succeeded (when it fails the constructor throws and there is
  no session).\<close>

definition ENetBase_new :: "config \<Rightarrow> session" where
  "ENetBase_new cfg =
     \<lparr>peers = [],
      eventCallbacks = [''connect'' \<mapsto> [], ''disconnect'' \<mapsto> [], ''receive'' \<mapsto> [], ''error'' \<mapsto> []],
      running = False,
      hostCreated = False,
      serverPeer = None,
      session_config = cfg,
      native_host = False,
      native_initialized = True,
      races = (\<lambda>k. \<lparr>timer = NoTimer, outcome = Pending\<rparr>),
      next_race = 0,
      emitted = [],
      delivered = [],
      native_log = []\<rparr>"

definition Server_new :: "build \<Rightarrow> options \<Rightarrow> session" where
  "Server_new b opts =
     (let s = ENetBase_new (Server_config b opts)
      in s\<lparr>eventCallbacks := (eventCallbacks s)(''ready'' \<mapsto> [])\<rparr>)"

text \<open>\<open>ENetWrapper::CreateHost\<close>. A bind address makes it a server host. A host that
  exists is destroyed first.\<close>

definition native_createHost ::
    "engine \<Rightarrow> (string \<times> int) option \<Rightarrow> int \<Rightarrow> session \<Rightarrow> (string + bool) \<times> session" where
  "native_createHost eng hostConfig peerCount s =
     (let s1 = s\<lparr>native_log := native_log s @ [N_createHost hostConfig peerCount]\<rparr>
      in if \<not> native_initialized s1 then (Inl ''ENet not initialized'', s1)
         else if hostConfig \<noteq> None \<and> \<not> address_ok eng then (Inl ''Failed to set host address'', s1)
         else if \<not> host_create_ok eng then (Inl ''Failed to create ENet host'', s1\<lparr>native_host := False\<rparr>)
         else (Inr True, s1\<lparr>native_host := True\<rparr>))"

text \<open>\<open>SetCompression\<close>, \<open>SetChecksum\<close> and \<open>SetNewPacket\<close> throw when there is no
  host.\<close>

definition native_set :: "native_call \<Rightarrow> session \<Rightarrow> (string + unit) \<times> session" where
  "native_set c s =
     (let s1 = s\<lparr>native_log := native_log s @ [c]\<rparr>
      in if native_host s1 then (Inr (), s1) else (Inl ''Host not created'', s1))"

definition setupHost :: "build \<Rightarrow> config \<Rightarrow> bool \<Rightarrow> session \<Rightarrow> (string + unit) \<times> session" where
  "setupHost b cfg isServer s =
     (case native_set (N_setCompression (case b of CJS \<Rightarrow> truthy (compression cfg) | ESM \<Rightarrow> True)) s of
        (Inl err, s1) \<Rightarrow> (Inl err, s1)
      | (Inr u, s1) \<Rightarrow>
     (case native_set (N_setChecksum (case b of CJS \<Rightarrow> truthy (checksum cfg) | ESM \<Rightarrow> True)) s1 of
        (Inl err, s2) \<Rightarrow> (Inl err, s2)
      | (Inr u, s2) \<Rightarrow>
          if usingNewPacket cfg \<or> usingNewPacketForServer cfg
          then native_set (N_setNewPacket True isServer) s2
          else (Inr (), s2)))"

text \<open>
  \<open>createServer\<close>. The port probe is an operating-system call; its answer is the
  parameter \<open>isPortAvailable\<close>. The message of the port error interpolates the port and
  the address in the source. An error raised inside the \<open>try\<close> is published by the
  \<open>catch\<close> and thrown again.
\<close>

definition createServer :: "build \<Rightarrow> engine \<Rightarrow> bool \<Rightarrow> session \<Rightarrow> (string + bool) \<times> session" where
  "createServer b eng isPortAvailable s =
     (if \<not> isPortAvailable
      then (Inl ''Port is already in use'',
            emit ''error'' (Err ''Port is already in use'')
              (emit ''error'' (Err ''Port is already in use'') s))
      else case native_createHost eng (Some (ip (session_config s), cfg_port (session_config s)))
                  (maxPeer (session_config s)) s of
          (Inl err, s1) \<Rightarrow> (Inl err, emit ''error'' (Err err) s1)
        | (Inr created, s1) \<Rightarrow>
            if \<not> created
            then (Inl ''Failed to create server host'',
                  emit ''error'' (Err ''Failed to create server host'') s1)
            else (case setupHost b (session_config s1) True s1 of
                (Inl err, s2) \<Rightarrow> (Inl err, emit ''error'' (Err err) s2)
              | (Inr u, s2) \<Rightarrow> (Inr True, s2\<lparr>hostCreated := True\<rparr>)))"

definition createClient :: "build \<Rightarrow> engine \<Rightarrow> session \<Rightarrow> (string + unit) \<times> session" where
  "createClient b eng s =
     (case native_createHost eng None 1 s of
        (Inl err, s1) \<Rightarrow> (Inl err, emit ''error'' (Err err) s1)
      | (Inr created, s1) \<Rightarrow>
          if \<not> created
          then (Inl ''Failed to create client host'',
                emit ''error'' (Err ''Failed to create client host'') s1)
          else (case setupHost b (session_config s1) False s1 of
              (Inl err, s2) \<Rightarrow> (Inl err, emit ''error'' (Err err) s2)
            | (Inr u, s2) \<Rightarrow> (Inr (), s2\<lparr>hostCreated := True\<rparr>)))"

section \<open>Connecting a client\<close>

text \<open>\<open>ENetWrapper::Connect\<close>: the peer pointer comes back as a BigInt.\<close>

definition native_connect :: "engine \<Rightarrow> session \<Rightarrow> (string + peer_id) \<times> session" where
  "native_connect eng s =
     (let cfg = session_config s;
          s1 = s\<lparr>native_log := native_log s @ [N_connect (ip cfg) (cfg_port cfg) (channelLimit cfg) 0]\<rparr>
      in if \<not> native_host s1 then (Inl ''Host not created'', s1)
         else if \<not> address_ok eng then (Inl ''Failed to set host address'', s1)
         else if host_connect eng = 0 then (Inl ''Failed to connect'', s1)
         else (Inr (uint (host_connect eng)), s1))"

text \<open>
  The executor of the promise in \<open>connect\<close>: \<open>timer = null\<close>, the one-shot
  subscription of \<open>onConnected\<close>, then \<open>setTimeout\<close>.
\<close>

definition await_connect :: "session \<Rightarrow> session" where
  "await_connect s =
     (let k = next_race s;
          s1 = s\<lparr>races := (races s)(k := \<lparr>timer = NoTimer, outcome = Pending\<rparr>), next_race := Suc k\<rparr>;
          s2 = once ''connect'' (OnConnected k) s1
      in s2\<lparr>races := (races s2)(k := (races s2 k)\<lparr>timer := Armed\<rparr>)\<rparr>)"

text \<open>
  The callback given to \<open>setTimeout\<close> in the \<open>k\<close>-th call; it runs only if the timer
  is still armed. When it rejects the promise, the \<open>await\<close> in \<open>connect\<close> throws and
  the \<open>catch\<close> of \<open>connect\<close> publishes the error.
\<close>

definition timer_callback :: "nat \<Rightarrow> session \<Rightarrow> session" where
  "timer_callback k s =
     (if timer (races s k) \<noteq> Armed then s
      else let s1 = s\<lparr>races := (races s)(k := (races s k)\<lparr>timer := Expired\<rparr>)\<rparr>;
               s2 = off ''connect'' (OnConnected k) s1;
               s3 = reject k ''Connect timeout'' s2
           in if outcome (races s2 k) = Pending
              then emit ''error'' (Err ''Connect timeout'') s3
              else s3)"

text \<open>
  \<open>connect\<close> up to the point where it suspends. With a timeout and no loop running, the
  background call of \<open>listen()\<close> runs synchronously up to its first \<open>await\<close>, that is
  through the first poll, before the subscriber is registered; the later iterations and
  the timer are separate steps (\<open>service\<close>, \<open>timer_callback\<close>). Without a timeout
  \<open>connect\<close> is the loop.
\<close>

definition connect :: "build \<Rightarrow> engine \<Rightarrow> int \<Rightarrow> tick list \<Rightarrow> session \<Rightarrow> session" where
  "connect b eng timeoutMs ticks s =
     (case (if hostCreated s then (Inr (), s) else createClient b eng s) of
        (Inl err, s1) \<Rightarrow> emit ''error'' (Err err) s1
      | (Inr u, s1) \<Rightarrow>
          (case native_connect eng s1 of
             (Inl err, s2) \<Rightarrow> emit ''error'' (Err err) s2
           | (Inr peerId, s2) \<Rightarrow>
               (let cfg = session_config s2;
                    s3 = (if peerId \<noteq> 0
                          then s2\<lparr>serverPeer := Some peerId,
                                  peers := Map_set peerId
                                    \<lparr>connected = False, address = Some (ip cfg), port = Some (cfg_port cfg)\<rparr>
                                    (peers s2)\<rparr>
                          else s2)
                in if timeoutMs > 0
                   then await_connect
                          (if \<not> running s3 then snd (listen 2 32 (take 1 ticks) s3) else s3)
                   else snd (listen 2 32 ticks s3))))"

section \<open>The process-wide initialisation count of the addon\<close>

text \<open>
  \<open>g_enetInitCount\<close> is a \<open>std::atomic<uint32_t>\<close> shared by all \<open>ENetWrapper\<close>
  objects of the process; each wrapper has its own \<open>host\<close> and \<open>initialized\<close>. The calls
  into the engine are recorded; \<open>enet_initialize\<close> is recorded with its success.
\<close>

record wrapper =
  host :: bool
  initialized :: bool

datatype engine_call = Enet_initialize bool | Enet_deinitialize | Enet_host_destroy nat

record process =
  g_enetInitCount :: "32 word"
  wrappers :: "nat \<Rightarrow> wrapper"
  engine_calls :: "engine_call list"

definition process_start :: process where
  "process_start =
     \<lparr>g_enetInitCount = 0,
      wrappers = (\<lambda>i. \<lparr>host = False, initialized = False\<rparr>),
      engine_calls = []\<rparr>"

text \<open>\<open>Initialize\<close> on wrapper \<open>i\<close>; \<open>ok\<close> says whether \<open>enet_initialize()\<close> returns
  \<open>0\<close> should it be called. \<open>fetch_add\<close> and \<open>fetch_sub\<close> return the old value.\<close>

definition Initialize :: "nat \<Rightarrow> bool \<Rightarrow> process \<Rightarrow> (string + bool) \<times> process" where
  "Initialize i ok p =
     (if initialized (wrappers p i) then (Inr True, p)
      else let old = g_enetInitCount p;
               p1 = p\<lparr>g_enetInitCount := old + 1\<rparr>
           in if old = 0
              then (let p2 = p1\<lparr>engine_calls := engine_calls p1 @ [Enet_initialize ok]\<rparr>
                    in if \<not> ok
                       then (Inl ''Failed to initialize ENet'',
                             p2\<lparr>g_enetInitCount := g_enetInitCount p2 - 1\<rparr>)
                       else (Inr True,
                             p2\<lparr>wrappers := (wrappers p2)(i := (wrappers p2 i)\<lparr>initialized := True\<rparr>)\<rparr>))
              else (Inr True,
                    p1\<lparr>wrappers := (wrappers p1)(i := (wrappers p1 i)\<lparr>initialized := True\<rparr>)\<rparr>))"

definition Deinitialize :: "nat \<Rightarrow> process \<Rightarrow> process" where
  "Deinitialize i p =
     (let p1 = (if host (wrappers p i)
                then p\<lparr>engine_calls := engine_calls p @ [Enet_host_destroy i],
                       wrappers := (wrappers p)(i := (wrappers p i)\<lparr>host := False\<rparr>)\<rparr>
                else p)
      in if initialized (wrappers p1 i)
         then (let p2 = p1\<lparr>wrappers := (wrappers p1)(i := (wrappers p1 i)\<lparr>initialized := False\<rparr>)\<rparr>;
                   old = g_enetInitCount p2;
                   p3 = p2\<lparr>g_enetInitCount := old - 1\<rparr>
               in if old = 1
                  then p3\<lparr>engine_calls := engine_calls p3 @ [Enet_deinitialize]\<rparr>
                  else p3)
         else p1)"

text \<open>A sequence of calls by the sessions of one process. The destructor
  \<open>~ENetWrapper\<close> (\<open>Finalize\<close>) runs the same statements as \<open>Deinitialize\<close>.\<close>

datatype lifecycle_call = Init nat bool | Deinit nat | Finalize nat

fun wrapper_of :: "lifecycle_call \<Rightarrow> nat" where
  "wrapper_of (Init i ok) = i"
| "wrapper_of (Deinit i) = i"
| "wrapper_of (Finalize i) = i"

fun exec :: "lifecycle_call \<Rightarrow> process \<Rightarrow> process" where
  "exec (Init i ok) p = snd (Initialize i ok p)"
| "exec (Deinit i) p = Deinitialize i p"
| "exec (Finalize i) p = Deinitialize i p"

fun run :: "lifecycle_call list \<Rightarrow> process \<Rightarrow> process" where
  "run [] p = p"
| "run (c # cs) p = run cs (exec c p)"

definition teardowns :: "process \<Rightarrow> nat" where
  "teardowns p = length (filter (\<lambda>c. c = Enet_deinitialize) (engine_calls p))"

definition engine_inits :: "process \<Rightarrow> nat" where
  "engine_inits p = length (filter (\<lambda>c. c = Enet_initialize True) (engine_calls p))"

definition init_attempts :: "process \<Rightarrow> nat" where
  "init_attempts p =
     length (filter (\<lambda>c. c = Enet_initialize True \<or> c = Enet_initialize False) (engine_calls p))"

section \<open>The packet builder\<close>

text \<open>
  \<open>RawPacketBuilder\<close> of the ES module. The \<open>ArrayBuffer\<close> is a list of bytes whose
  length is the capacity. \<open>DataView.prototype.setUint8\<close> and its siblings throw a
  \<open>RangeError\<close> when the value does not fit between the offset and the end of the buffer,
  and write nothing then; so does \<open>new Uint8Array(buffer, byteOffset)\<close> for an offset
  beyond the end, and \<open>TypedArray.prototype.set\<close> for a source longer than the view.
\<close>

datatype js_error = RangeError | Error string

record RawPacketBuilder =
  buffer :: "byte list"
  offset :: nat

definition RawPacketBuilder_new :: "nat \<Rightarrow> RawPacketBuilder" where
  "RawPacketBuilder_new n = \<lparr>buffer = replicate n 0, offset = 0\<rparr>"

definition capacity :: "RawPacketBuilder \<Rightarrow> nat" where
  "capacity b = length (buffer b)"

definition DataView_set :: "nat \<Rightarrow> byte list \<Rightarrow> byte list \<Rightarrow> js_error + byte list" where
  "DataView_set byteOffset bytes buf =
     (if byteOffset + length bytes > length buf then Inl RangeError
      else Inr (take byteOffset buf @ bytes @ drop (byteOffset + length bytes) buf))"

text \<open>The integer setters reduce the value modulo \<open>2 ^ (8 * n)\<close>; the bytes are stored
  least significant first when \<open>littleEndian\<close> is true.\<close>

fun le_bytes :: "nat \<Rightarrow> int \<Rightarrow> byte list" where
  "le_bytes 0 v = []"
| "le_bytes (Suc n) v = of_int v # le_bytes n (v div 256)"

definition encode :: "nat \<Rightarrow> int \<Rightarrow> bool \<Rightarrow> byte list" where
  "encode n v littleEndian = (if littleEndian then le_bytes n v else rev (le_bytes n v))"

definition write_view :: "byte list \<Rightarrow> RawPacketBuilder \<Rightarrow> js_error + RawPacketBuilder" where
  "write_view bytes b =
     (case DataView_set (offset b) bytes (buffer b) of
        Inl e \<Rightarrow> Inl e
      | Inr buf \<Rightarrow> Inr (b\<lparr>buffer := buf, offset := offset b + length bytes\<rparr>))"

definition writeUint8 :: "int \<Rightarrow> RawPacketBuilder \<Rightarrow> js_error + RawPacketBuilder" where
  "writeUint8 v b = write_view (encode 1 v True) b"

definition writeUint16 :: "int \<Rightarrow> bool \<Rightarrow> RawPacketBuilder \<Rightarrow> js_error + RawPacketBuilder" where
  "writeUint16 v littleEndian b = write_view (encode 2 v littleEndian) b"

definition writeUint32 :: "int \<Rightarrow> bool \<Rightarrow> RawPacketBuilder \<Rightarrow> js_error + RawPacketBuilder" where
  "writeUint32 v littleEndian b = write_view (encode 4 v littleEndian) b"

text \<open>A floating-point value is given by the bit pattern of its IEEE 754 encoding.\<close>

definition writeFloat32 :: "32 word \<Rightarrow> bool \<Rightarrow> RawPacketBuilder \<Rightarrow> js_error + RawPacketBuilder" where
  "writeFloat32 bits littleEndian b = write_view (encode 4 (uint bits) littleEndian) b"

definition writeFloat64 :: "64 word \<Rightarrow> bool \<Rightarrow> RawPacketBuilder \<Rightarrow> js_error + RawPacketBuilder" where
  "writeFloat64 bits littleEndian b = write_view (encode 8 (uint bits) littleEndian) b"

text \<open>\<open>new Uint8Array(this.buffer, this.offset)\<close> followed by \<open>set\<close>.\<close>

definition Uint8Array_set :: "byte list \<Rightarrow> RawPacketBuilder \<Rightarrow> js_error + RawPacketBuilder" where
  "Uint8Array_set bytes b =
     (if offset b > length (buffer b) then Inl RangeError
      else if length bytes > length (buffer b) - offset b then Inl RangeError
      else Inr (b\<lparr>buffer := take (offset b) (buffer b) @ bytes
                            @ drop (offset b + length bytes) (buffer b),
                  offset := offset b + length bytes\<rparr>))"

text \<open>A \<open>string\<close> is the sequence of its UTF-8 bytes, which is what
  \<open>TextEncoder.encode\<close> returns.\<close>

definition writeString :: "string \<Rightarrow> string \<Rightarrow> RawPacketBuilder \<Rightarrow> js_error + RawPacketBuilder" where
  "writeString str encoding b =
     (if encoding \<noteq> [] \<and> encoding \<noteq> ''utf8''
      then Inl (Error ''RawPacketBuilder.writeString supports only utf8 encoding'')
      else Uint8Array_set (map of_char str) b)"

definition writeBytes :: "byte list \<Rightarrow> RawPacketBuilder \<Rightarrow> js_error + RawPacketBuilder" where
  "writeBytes bytes b = Uint8Array_set bytes b"

definition getPacketData :: "RawPacketBuilder \<Rightarrow> byte list" where
  "getPacketData b = take (offset b) (buffer b)"

definition reset :: "RawPacketBuilder \<Rightarrow> RawPacketBuilder" where
  "reset b = b\<lparr>offset := 0\<rparr>"

definition size_of :: "RawPacketBuilder \<Rightarrow> nat" where
  "size_of b = offset b"

text \<open>The write operations, with their arguments, and the width each one encodes.\<close>

datatype write_op =
    WriteUint8 int
  | WriteUint16 int bool
  | WriteUint32 int bool
  | WriteFloat32 "32 word" bool
  | WriteFloat64 "64 word" bool
  | WriteString string
  | WriteBytes "byte list"

fun apply_write :: "write_op \<Rightarrow> RawPacketBuilder \<Rightarrow> js_error + RawPacketBuilder" where
  "apply_write (WriteUint8 v) b = writeUint8 v b"
| "apply_write (WriteUint16 v le) b = writeUint16 v le b"
| "apply_write (WriteUint32 v le) b = writeUint32 v le b"
| "apply_write (WriteFloat32 v le) b = writeFloat32 v le b"
| "apply_write (WriteFloat64 v le) b = writeFloat64 v le b"
| "apply_write (WriteString str) b = writeString str ''utf8'' b"
| "apply_write (WriteBytes bytes) b = writeBytes bytes b"

fun width :: "write_op \<Rightarrow> nat" where
  "width (WriteUint8 v) = 1"
| "width (WriteUint16 v le) = 2"
| "width (WriteUint32 v le) = 4"
| "width (WriteFloat32 v le) = 4"
| "width (WriteFloat64 v le) = 8"
| "width (WriteString str) = length str"
| "width (WriteBytes bytes) = length bytes"

section \<open>Sample inputs\<close>

text \<open>Concrete options, an engine that accepts everything, and a server created with
  them that has one plain subscriber for \<open>'disconnect'\<close> and one for \<open>'receive'\<close>.\<close>

definition default_options :: options where
  "default_options =
     \<lparr>o_ip = None, o_address = None, o_port = None, o_maxPeer = None, o_channelLimit = None,
      o_usingNewPacket = None, o_usingNewPacketForServer = None, o_incomingBandwidth = None,
      o_outgoingBandwidth = None, o_checksum = None, o_compression = None\<rparr>"

definition loopback :: engine where
  "loopback =
     \<lparr>address_ok = True, host_create_ok = True, host_connect = 4096,
      packet_create_ok = True, peer_send = (\<lambda>p. 0)\<rparr>"

definition sample_server :: session where
  "sample_server =
     on ''receive'' (Handler 1) (on ''disconnect'' (Handler 0)
       (snd (createServer CJS loopback True (Server_new CJS default_options))))"

text \<open>The same server with a peer that is registered but not yet connected.\<close>

definition pending_server :: session where
  "pending_server =
     sample_server\<lparr>peers := [(7, \<lparr>connected = False, address = Some ''127.0.0.1'', port = Some 17091\<rparr>)]\<rparr>"

section \<open>Auxiliary notions for the polling loop\<close>

text \<open>Each iteration starts from the interval the one before ended with.\<close>

fun chained :: "int \<Rightarrow> iteration list \<Rightarrow> bool" where
  "chained c [] = True"
| "chained c (it # its) = (interval it = c \<and> chained (after it) its)"

text \<open>What one iteration may do to \<open>currentInterval\<close>.\<close>

definition step_ok :: "int \<Rightarrow> int \<Rightarrow> iteration \<Rightarrow> bool" where
  "step_ok p m it =
     (p \<le> interval it \<and> interval it \<le> m \<and> p \<le> after it \<and> after it \<le> m \<and>
      (if result it = Produced then after it = p
       else if result it = Nothing then after it = min (interval it * 2) m
       else after it = interval it))"

section \<open>Further sample inputs and auxiliary notions\<close>

text \<open>An engine that rejects every packet with status \<open>-1\<close>, as \<open>enet_peer_send\<close> does
  for a peer that is not in the connected state.\<close>

definition refusing :: engine where
  "refusing = loopback\<lparr>peer_send := (\<lambda>p. - 1)\<rparr>"

text \<open>The sample server after the Connect events of the peers \<open>7\<close> and \<open>9\<close>.\<close>

definition connected_server :: session where
  "connected_server = handleEvent (Connect 9) (handleEvent (Connect 7) sample_server)"

text \<open>The constructor of \<open>Client\<close> builds the configuration and creates the host; it
  throws when \<open>createClient\<close> does.\<close>

definition Client_new :: "build \<Rightarrow> engine \<Rightarrow> options \<Rightarrow> (string + unit) \<times> session" where
  "Client_new b eng opts = createClient b eng (ENetBase_new (Client_config b opts))"

definition sample_client :: session where
  "sample_client = snd (Client_new CJS loopback default_options)"

text \<open>The sample client suspended in \<open>connect({timeoutMs: 50})\<close> after one idle poll.\<close>

definition awaiting_client :: session where
  "awaiting_client = connect CJS loopback 50 [(Idle, False)] sample_client"

text \<open>Options that ask for the checksum and for the new packet mode.\<close>

definition checksum_options :: options where
  "checksum_options = default_options\<lparr>o_checksum := Some True, o_usingNewPacketForServer := Some True\<rparr>"

text \<open>The peers \<open>broadcast\<close> sends to: the keys of the entries with
  \<open>connected = true\<close>, in the order of the registry.\<close>

definition targets :: "session \<Rightarrow> peer_id list" where
  "targets s = map fst (filter (\<lambda>e. connected (snd e)) (peers s))"

text \<open>The calls \<open>setupHost\<close> makes when the host exists.\<close>

definition toggles :: "build \<Rightarrow> config \<Rightarrow> bool \<Rightarrow> native_call list" where
  "toggles b cfg isServer =
     [N_setCompression (case b of CJS \<Rightarrow> truthy (compression cfg) | ESM \<Rightarrow> True),
      N_setChecksum (case b of CJS \<Rightarrow> truthy (checksum cfg) | ESM \<Rightarrow> True)]
     @ (if usingNewPacket cfg \<or> usingNewPacketForServer cfg then [N_setNewPacket True isServer] else [])"

text \<open>The wrappers whose \<open>initialized\<close> flag is set, and the invariant that ties the
  count to them when all wrappers have an index below \<open>n\<close>.\<close>

definition live :: "process \<Rightarrow> nat set" where
  "live p = {i. initialized (wrappers p i)}"

definition counted :: "nat \<Rightarrow> process \<Rightarrow> bool" where
  "counted n p = (finite (live p) \<and> live p \<subseteq> {..<n} \<and> unat (g_enetInitCount p) = card (live p))"

text \<open>
  The subscriber lists that the public interface builds from application functions:
  \<open>on(eventType, f)\<close> appends \<open>Handler n\<close> and \<open>once(eventType, f)\<close> appends
  \<open>Wrapped eventType (Handler n)\<close>. The lists of \<open>'disconnect'\<close>, \<open>'receive'\<close> and
  \<open>'error'\<close> never hold anything else.
\<close>

fun api_callback :: "string \<Rightarrow> callback \<Rightarrow> bool" where
  "api_callback e (Handler n) = True"
| "api_callback e (Wrapped e' (Handler n)) = (e' = e)"
| "api_callback e c = False"

definition subscribed :: "string \<Rightarrow> callback list \<Rightarrow> bool" where
  "subscribed e list = list_all (api_callback e) list"

text \<open>
  The application functions that one publication to such a list calls, in order. A
  subscriber registered with \<open>once\<close> removes itself from the live array while
  \<open>forEach\<close> runs, so the subscriber behind it moves into the index just visited and is
  passed over.
\<close>

fun receivers :: "callback list \<Rightarrow> nat list" where
  "receivers [] = []"
| "receivers (Handler n # rest) = n # receivers rest"
| "receivers [Wrapped e (Handler n)] = [n]"
| "receivers (Wrapped e (Handler n) # skipped # rest) = n # receivers rest"
| "receivers (c # rest) = receivers rest"

text \<open>The server with the pending peer and, behind each plain subscriber, one registered
  with \<open>once\<close> and another plain one.\<close>

definition once_server :: session where
  "once_server =
     on ''receive'' (Handler 6) (once ''receive'' (Handler 5)
       (on ''disconnect'' (Handler 3) (once ''disconnect'' (Handler 2) pending_server)))"

section \<open>What the event bus leaves alone\<close>

text \<open>Callbacks can change the subscriber lists, the closures of \<open>connect\<close> and the
  record of deliveries; nothing else.\<close>

lemma off_fields [simp]:
  "peers (off e c s) = peers s" "native_log (off e c s) = native_log s"
  "emitted (off e c s) = emitted s" "hostCreated (off e c s) = hostCreated s"
  "running (off e c s) = running s" "serverPeer (off e c s) = serverPeer s"
  "native_host (off e c s) = native_host s" "session_config (off e c s) = session_config s"
  "native_initialized (off e c s) = native_initialized s"
  "delivered (off e c s) = delivered s" "races (off e c s) = races s"
  "next_race (off e c s) = next_race s"
  by (simp_all add: off_def split: option.splits)

lemma on_fields [simp]:
  "peers (on e c s) = peers s" "native_log (on e c s) = native_log s"
  "emitted (on e c s) = emitted s" "hostCreated (on e c s) = hostCreated s"
  "running (on e c s) = running s" "serverPeer (on e c s) = serverPeer s"
  "native_host (on e c s) = native_host s" "session_config (on e c s) = session_config s"
  "native_initialized (on e c s) = native_initialized s"
  "delivered (on e c s) = delivered s" "races (on e c s) = races s"
  "next_race (on e c s) = next_race s"
  by (simp_all add: on_def split: option.splits)

lemma clearTimeout_fields [simp]:
  "peers (clearTimeout k s) = peers s" "native_log (clearTimeout k s) = native_log s"
  "emitted (clearTimeout k s) = emitted s" "hostCreated (clearTimeout k s) = hostCreated s"
  "running (clearTimeout k s) = running s" "serverPeer (clearTimeout k s) = serverPeer s"
  "native_host (clearTimeout k s) = native_host s"
  "session_config (clearTimeout k s) = session_config s"
  "native_initialized (clearTimeout k s) = native_initialized s"
  "delivered (clearTimeout k s) = delivered s"
  "eventCallbacks (clearTimeout k s) = eventCallbacks s"
  "next_race (clearTimeout k s) = next_race s"
  by (simp_all add: clearTimeout_def)

lemma resolve_fields [simp]:
  "peers (resolve k s) = peers s" "native_log (resolve k s) = native_log s"
  "emitted (resolve k s) = emitted s" "hostCreated (resolve k s) = hostCreated s"
  "running (resolve k s) = running s" "serverPeer (resolve k s) = serverPeer s"
  "native_host (resolve k s) = native_host s"
  "session_config (resolve k s) = session_config s"
  "native_initialized (resolve k s) = native_initialized s"
  "delivered (resolve k s) = delivered s"
  "eventCallbacks (resolve k s) = eventCallbacks s"
  "next_race (resolve k s) = next_race s"
  by (simp_all add: resolve_def)

lemma reject_fields [simp]:
  "peers (reject k m s) = peers s" "native_log (reject k m s) = native_log s"
  "emitted (reject k m s) = emitted s" "hostCreated (reject k m s) = hostCreated s"
  "running (reject k m s) = running s" "serverPeer (reject k m s) = serverPeer s"
  "native_host (reject k m s) = native_host s"
  "session_config (reject k m s) = session_config s"
  "native_initialized (reject k m s) = native_initialized s"
  "delivered (reject k m s) = delivered s"
  "eventCallbacks (reject k m s) = eventCallbacks s"
  "next_race (reject k m s) = next_race s"
  by (simp_all add: reject_def)

lemma call_fields [simp]:
  "peers (call c d s) = peers s" "native_log (call c d s) = native_log s"
  "emitted (call c d s) = emitted s" "hostCreated (call c d s) = hostCreated s"
  "running (call c d s) = running s" "serverPeer (call c d s) = serverPeer s"
  "native_host (call c d s) = native_host s" "session_config (call c d s) = session_config s"
  "native_initialized (call c d s) = native_initialized s"
  "next_race (call c d s) = next_race s"
  by (induction c d s rule: call.induct; simp)+

lemma visit_fields [simp]:
  "peers (visit e d k s) = peers s" "native_log (visit e d k s) = native_log s"
  "emitted (visit e d k s) = emitted s" "hostCreated (visit e d k s) = hostCreated s"
  "running (visit e d k s) = running s" "serverPeer (visit e d k s) = serverPeer s"
  "native_host (visit e d k s) = native_host s" "session_config (visit e d k s) = session_config s"
  "native_initialized (visit e d k s) = native_initialized s"
  "next_race (visit e d k s) = next_race s"
  by (simp_all add: visit_def split: option.splits)

lemma forEach_fields [simp]:
  "peers (forEach e d k n s) = peers s" "native_log (forEach e d k n s) = native_log s"
  "emitted (forEach e d k n s) = emitted s" "hostCreated (forEach e d k n s) = hostCreated s"
  "running (forEach e d k n s) = running s" "serverPeer (forEach e d k n s) = serverPeer s"
  "native_host (forEach e d k n s) = native_host s"
  "session_config (forEach e d k n s) = session_config s"
  "native_initialized (forEach e d k n s) = native_initialized s"
  "next_race (forEach e d k n s) = next_race s"
  by (induction e d k n s rule: forEach.induct; simp)+

lemma emit_fields [simp]:
  "peers (emit e d s) = peers s" "native_log (emit e d s) = native_log s"
  "emitted (emit e d s) = emitted s @ [(e, d)]" "hostCreated (emit e d s) = hostCreated s"
  "running (emit e d s) = running s" "serverPeer (emit e d s) = serverPeer s"
  "native_host (emit e d s) = native_host s" "session_config (emit e d s) = session_config s"
  "native_initialized (emit e d s) = native_initialized s"
  "next_race (emit e d s) = next_race s"
  by (simp_all add: emit_def Let_def split: option.splits)

section \<open>Facts about the registry\<close>

lemma map_of_Map_set: "map_of (Map_set k v m) = (map_of m)(k \<mapsto> v)"
  by (induction m) (auto simp: fun_eq_iff)

lemma Map_get_Map_set: "Map_get q (Map_set k v m) = (if q = k then Some v else Map_get q m)"
  by (simp add: Map_get_def map_of_Map_set)

lemma Map_set_absent: "Map_get k m = None \<Longrightarrow> Map_set k v m = m @ [(k, v)]"
  by (induction m) (auto simp: Map_get_def split: if_splits)

lemma Map_set_present: "Map_get k m = Some r \<Longrightarrow> map fst (Map_set k v m) = map fst m"
  by (induction m) (auto simp: Map_get_def split: if_splits)

lemma Map_get_Map_delete: "Map_get q (Map_delete k m) = (if q = k then None else Map_get q m)"
  by (induction m) (auto simp: Map_get_def Map_delete_def)

lemma Map_has_Map_delete: "Map_has q (Map_delete k m) = (q \<noteq> k \<and> Map_has q m)"
  using Map_get_Map_delete [of q k m] by (auto simp: Map_has_def Map_get_def)

lemma Map_delete_absent: "\<not> Map_has k m \<Longrightarrow> Map_delete k m = m"
proof -
  assume "\<not> Map_has k m"
  then have "k \<notin> fst ` set m" by (simp add: Map_has_def map_of_eq_None_iff)
  then show ?thesis by (auto simp: Map_delete_def filter_id_conv)
qed

text \<open>Plain subscribers: every one is called once, in order, and the list stays.\<close>

lemma forEach_handlers:
  "eventCallbacks s e = Some (map Handler hs) \<Longrightarrow> k + n = length hs \<Longrightarrow>
   delivered (forEach e d k n s) = delivered s @ map (\<lambda>h. (h, d)) (drop k hs) \<and>
   eventCallbacks (forEach e d k n s) = eventCallbacks s"
proof (induction n arbitrary: k s)
  case 0
  then show ?case by simp
next
  case (Suc n)
  let ?s = "visit e d k s"
  from Suc.prems have k: "k < length hs" by simp
  with Suc.prems have v: "?s = s\<lparr>delivered := delivered s @ [(hs ! k, d)]\<rparr>"
    by (simp add: visit_def)
  then have "eventCallbacks ?s e = Some (map Handler hs)" using Suc.prems by simp
  from Suc.IH [OF this, of "Suc k"] Suc.prems
  have "delivered (forEach e d (Suc k) n ?s) = delivered ?s @ map (\<lambda>h. (h, d)) (drop (Suc k) hs)"
    and "eventCallbacks (forEach e d (Suc k) n ?s) = eventCallbacks ?s" by simp_all
  with v k show ?case by (simp add: Cons_nth_drop_Suc [symmetric])
qed

lemma emit_handlers:
  "eventCallbacks s e = Some (map Handler hs) \<Longrightarrow>
   delivered (emit e d s) = delivered s @ map (\<lambda>h. (h, d)) hs \<and>
   eventCallbacks (emit e d s) = eventCallbacks s"
  using forEach_handlers [of "s\<lparr>emitted := emitted s @ [(e, d)]\<rparr>" e hs 0 "length hs" d]
  by (simp add: emit_def Let_def)

lemma sample_server_fields:
  "peers sample_server = []" "hostCreated sample_server" "native_host sample_server"
  "eventCallbacks sample_server ''disconnect'' = Some [Handler 0]"
  "eventCallbacks sample_server ''receive'' = Some [Handler 1]"
  "eventCallbacks sample_server ''connect'' = Some []"
  "eventCallbacks sample_server ''error'' = Some []"
  "emitted sample_server = []" "delivered sample_server = []" "running sample_server = False"
  by (simp_all add: sample_server_def createServer_def native_createHost_def setupHost_def
      native_set_def Server_new_def ENetBase_new_def Server_config_def default_options_def
      loopback_def Let_def on_def)

lemma pending_server_fields:
  "peers pending_server = [(7, \<lparr>connected = False, address = Some ''127.0.0.1'', port = Some 17091\<rparr>)]"
  "eventCallbacks pending_server ''receive'' = Some [Handler 1]"
  "emitted pending_server = []" "delivered pending_server = []"
  by (simp_all add: pending_server_def sample_server_fields)

section \<open>Who receives a publication\<close>

lemma once_server_fields:
  "peers once_server = [(7, \<lparr>connected = False, address = Some ''127.0.0.1'', port = Some 17091\<rparr>)]"
  "hostCreated once_server" "native_host once_server"
  "eventCallbacks once_server ''disconnect''
     = Some [Handler 0, Wrapped ''disconnect'' (Handler 2), Handler 3]"
  "eventCallbacks once_server ''receive''
     = Some [Handler 1, Wrapped ''receive'' (Handler 5), Handler 6]"
  "emitted once_server = []" "delivered once_server = []"
  by (simp_all add: once_server_def once_def on_def pending_server_def sample_server_fields)

lemma receivers_Wrapped:
  "receivers (Wrapped e (Handler n) # rest) = n # receivers (tl rest)"
  by (cases rest) simp_all

lemma receivers_plain: "receivers (map Handler hs) = hs"
  by (induction hs) simp_all

lemma drop_remove1_nth:
  assumes "k < length xs"
  shows "drop k (remove1 (xs ! k) xs) = drop (Suc k) xs"
proof -
  let ?a = "take (Suc k) xs"
  have in_a: "xs ! k \<in> set ?a"
    using assms by (simp add: take_Suc_conv_app_nth)
  have "remove1 (xs ! k) xs = remove1 (xs ! k) (?a @ drop (Suc k) xs)" by simp
  also have "\<dots> = remove1 (xs ! k) ?a @ drop (Suc k) xs"
    using in_a by (simp only: remove1_append if_True)
  finally have eq: "remove1 (xs ! k) xs = remove1 (xs ! k) ?a @ drop (Suc k) xs" .
  have "length (remove1 (xs ! k) ?a) = k"
    using in_a assms by (simp add: length_remove1)
  then show ?thesis
    by (simp add: eq)
qed

lemma forEach_receivers:
  "eventCallbacks s e = Some xs \<Longrightarrow> subscribed e (drop k xs) \<Longrightarrow> length xs - k \<le> left \<Longrightarrow>
   delivered (forEach e d k left s) = delivered s @ map (\<lambda>n. (n, d)) (receivers (drop k xs))"
proof (induction left arbitrary: k s xs)
  case 0
  then show ?case by simp
next
  case (Suc left)
  show ?case
  proof (cases "k < length xs")
    case False
    then have v: "visit e d k s = s" using Suc.prems(1) by (simp add: visit_def)
    from False have "drop k xs = []" "drop (Suc k) xs = []" by simp_all
    with Suc.IH [of s xs "Suc k"] Suc.prems v False show ?thesis
      by (simp add: subscribed_def)
  next
    case True
    then have dk: "drop k xs = xs ! k # drop (Suc k) xs"
      by (simp add: Cons_nth_drop_Suc)
    with Suc.prems(2) have api: "api_callback e (xs ! k)" and rest: "subscribed e (drop (Suc k) xs)"
      by (simp_all add: subscribed_def)
    from api consider
      (plain) n where "xs ! k = Handler n"
      | (one) n where "xs ! k = Wrapped e (Handler n)"
      by (cases "(e, xs ! k)" rule: api_callback.cases) auto
    then show ?thesis
    proof cases
      case plain
      let ?s = "s\<lparr>delivered := delivered s @ [(n, d)]\<rparr>"
      have v: "visit e d k s = ?s"
        using Suc.prems(1) True plain by (simp add: visit_def)
      have "eventCallbacks ?s e = Some xs" using Suc.prems(1) by simp
      from Suc.IH [OF this rest] Suc.prems(3)
      have "delivered (forEach e d (Suc k) left ?s)
              = delivered ?s @ map (\<lambda>n. (n, d)) (receivers (drop (Suc k) xs))"
        by simp
      then show ?thesis
        using v dk plain by simp
    next
      case one
      let ?ys = "remove1 (xs ! k) xs"
      let ?s = "visit e d k s"
      have v: "eventCallbacks ?s e = Some ?ys" "delivered ?s = delivered s @ [(n, d)]"
        using Suc.prems(1) True one by (simp_all add: visit_def off_def)
      have dr: "drop (Suc k) ?ys = tl (drop (Suc k) xs)"
        using drop_remove1_nth [OF True] by (metis drop_Suc tl_drop)
      have "set (tl (drop (Suc k) xs)) \<subseteq> set (drop (Suc k) xs)"
        by (cases "drop (Suc k) xs") auto
      with rest have sub: "subscribed e (drop (Suc k) ?ys)"
        unfolding dr subscribed_def list_all_iff by blast
      have "x \<in> set xs" if "x = xs ! k" for x using that True by simp
      then have "length ?ys = length xs - 1"
        using True by (simp add: length_remove1)
      with Suc.prems(3) have len: "length ?ys - Suc k \<le> left" by simp
      from Suc.IH [OF v(1) sub len]
      have "delivered (forEach e d (Suc k) left ?s)
              = delivered ?s @ map (\<lambda>n. (n, d)) (receivers (tl (drop (Suc k) xs)))"
        by (simp add: dr)
      then show ?thesis
        using v(2) dk one by (simp add: receivers_Wrapped)
    qed
  qed
qed

lemma emit_receivers:
  "eventCallbacks s e = Some xs \<Longrightarrow> subscribed e xs \<Longrightarrow>
   delivered (emit e d s) = delivered s @ map (\<lambda>n. (n, d)) (receivers xs)"
  using forEach_receivers [of "s\<lparr>emitted := emitted s @ [(e, d)]\<rparr>" e xs 0 "length xs" d]
  by (simp add: emit_def Let_def)

text \<open>Whoever is called gets the payload that was published.\<close>

lemma call_as_is: "\<exists>ns. delivered (call c d s) = delivered s @ map (\<lambda>n. (n, d)) ns"
proof (induction c d s rule: call.induct)
  case (1 n d s)
  have "delivered (call (Handler n) d s) = delivered s @ map (\<lambda>n. (n, d)) [n]" by simp
  then show ?case by blast
next
  case (2 eventType cb d s)
  then show ?case by simp
next
  case (3 k d s)
  have "delivered (call (OnConnected k) d s) = delivered s @ map (\<lambda>n. (n, d)) []" by simp
  then show ?case by blast
qed

lemma visit_as_is: "\<exists>ns. delivered (visit e d k s) = delivered s @ map (\<lambda>n. (n, d)) ns"
proof (cases "\<exists>xs. eventCallbacks s e = Some xs \<and> k < length xs")
  case True
  then obtain xs where "eventCallbacks s e = Some xs" "k < length xs" by blast
  then have "visit e d k s = call (xs ! k) d s" by (simp add: visit_def)
  with call_as_is [of "xs ! k" d s] show ?thesis by simp
next
  case False
  then have "visit e d k s = s" by (auto simp: visit_def split: option.splits)
  then have "delivered (visit e d k s) = delivered s @ map (\<lambda>n. (n, d)) []" by simp
  then show ?thesis by blast
qed

lemma forEach_as_is: "\<exists>ns. delivered (forEach e d k left s) = delivered s @ map (\<lambda>n. (n, d)) ns"
proof (induction left arbitrary: k s)
  case 0
  have "delivered (forEach e d k 0 s) = delivered s @ map (\<lambda>n. (n, d)) []" by simp
  then show ?case by blast
next
  case (Suc left)
  obtain ns where a: "delivered (visit e d k s) = delivered s @ map (\<lambda>n. (n, d)) ns"
    using visit_as_is by blast
  obtain ms where "delivered (forEach e d (Suc k) left (visit e d k s))
      = delivered (visit e d k s) @ map (\<lambda>n. (n, d)) ms"
    using Suc.IH by blast
  with a have "delivered (forEach e d k (Suc left) s) = delivered s @ map (\<lambda>n. (n, d)) (ns @ ms)"
    by simp
  then show ?case by blast
qed

lemma emit_as_is: "\<exists>ns. delivered (emit e d s) = delivered s @ map (\<lambda>n. (n, d)) ns"
proof (cases "eventCallbacks s e")
  case None
  then have "delivered (emit e d s) = delivered s @ map (\<lambda>n. (n, d)) []"
    by (simp add: emit_def Let_def)
  then show ?thesis by blast
next
  case (Some xs)
  with forEach_as_is [where s = "s\<lparr>emitted := emitted s @ [(e, d)]\<rparr>" and e = e and d = d
      and k = 0 and left = "length xs"]
  show ?thesis by (simp add: emit_def Let_def)
qed

text \<open>The registry plays no part in a publication.\<close>

lemma off_peers: "off e c (s\<lparr>peers := r\<rparr>) = (off e c s)\<lparr>peers := r\<rparr>"
  by (simp add: off_def split: option.splits)

lemma clearTimeout_peers: "clearTimeout k (s\<lparr>peers := r\<rparr>) = (clearTimeout k s)\<lparr>peers := r\<rparr>"
  by (simp add: clearTimeout_def)

lemma resolve_peers: "resolve k (s\<lparr>peers := r\<rparr>) = (resolve k s)\<lparr>peers := r\<rparr>"
  by (simp add: resolve_def)

lemma call_peers: "call c d (s\<lparr>peers := r\<rparr>) = (call c d s)\<lparr>peers := r\<rparr>"
  by (induction c d s rule: call.induct)
    (simp_all add: off_peers resolve_peers clearTimeout_peers)

lemma visit_peers: "visit e d k (s\<lparr>peers := r\<rparr>) = (visit e d k s)\<lparr>peers := r\<rparr>"
  by (simp add: visit_def call_peers split: option.splits)

lemma forEach_peers: "forEach e d k left (s\<lparr>peers := r\<rparr>) = (forEach e d k left s)\<lparr>peers := r\<rparr>"
  by (induction left arbitrary: k s) (simp_all add: visit_peers)

lemma emit_peers: "emit e d (s\<lparr>peers := r\<rparr>) = (emit e d s)\<lparr>peers := r\<rparr>"
proof -
  let ?x = "emitted s @ [(e, d)]"
  have sw: "s\<lparr>peers := r, emitted := ?x\<rparr> = s\<lparr>emitted := ?x, peers := r\<rparr>" by simp
  have "forEach e d 0 left (s\<lparr>peers := r, emitted := ?x\<rparr>)
          = (forEach e d 0 left (s\<lparr>emitted := ?x\<rparr>))\<lparr>peers := r\<rparr>" for left
    unfolding sw by (rule forEach_peers)
  then show ?thesis
    by (simp add: emit_def Let_def split: option.splits)
qed

text \<open>A poll that produces an event hands it to \<open>handleEvent\<close> and returns it.\<close>

lemma service_Ready:
  "hostCreated s \<Longrightarrow> native_host s \<Longrightarrow>
   service t (Ready e) s
     = (Inr (Some e), handleEvent e (s\<lparr>native_log := native_log s @ [N_hostService t]\<rparr>))"
  by (simp add: service_def Let_def)

lemma delivered_emit_peers: "delivered (emit e d (s\<lparr>peers := r\<rparr>)) = delivered (emit e d s)"
  by (simp add: emit_peers)

lemma delivered_Disconnect:
  "delivered (handleEvent (Disconnect p d) s) = delivered (emit ''disconnect'' (Ev (Disconnect p d)) s)"
  by (simp add: delivered_emit_peers)

lemma delivered_Disconnect_any_registry:
  "delivered (handleEvent (Disconnect p d) (s\<lparr>peers := r\<rparr>)) = delivered (handleEvent (Disconnect p d) s)"
  unfolding delivered_Disconnect by (rule delivered_emit_peers)

section \<open>The packet builder raises at its capacity\<close>

lemma length_le_bytes [simp]: "length (le_bytes n v) = n"
  by (induction n arbitrary: v) simp_all

lemma length_encode [simp]: "length (encode n v le) = n"
  by (simp add: encode_def)

lemma write_view_overflow:
  "offset b + length bytes > capacity b \<Longrightarrow> write_view bytes b = Inl RangeError"
  by (simp add: write_view_def DataView_set_def capacity_def)

lemma write_view_ok:
  "write_view bytes b = Inr b' \<Longrightarrow>
     capacity b' = capacity b \<and> offset b' = offset b + length bytes \<and> offset b' \<le> capacity b"
  by (auto simp: write_view_def DataView_set_def capacity_def split: if_splits)

lemma Uint8Array_set_overflow:
  "offset b + length bytes > capacity b \<Longrightarrow> Uint8Array_set bytes b = Inl RangeError"
  by (auto simp: Uint8Array_set_def capacity_def)

lemma Uint8Array_set_ok:
  "Uint8Array_set bytes b = Inr b' \<Longrightarrow>
     capacity b' = capacity b \<and> offset b' = offset b + length bytes \<and> offset b' \<le> capacity b"
  by (auto simp: Uint8Array_set_def capacity_def split: if_splits)

text \<open>
  Claim C9. Every write operation of the packet builder (\<open>writeUint8\<close>, \<open>writeUint16\<close>,
  \<open>writeUint32\<close>, \<open>writeFloat32\<close>, \<open>writeFloat64\<close>, \<open>writeString\<close>, \<open>writeBytes\<close>)
  whose encoded width would take the cursor past the capacity raises an error
  (a \<open>RangeError\<close>) instead of growing the buffer or writing outside it; a write that
  succeeds advances the cursor by the width, stays within the capacity and leaves the
  capacity as it was, as does \<open>reset\<close>; the capacity is the size given at construction.
\<close>

theorem write_past_capacity_raises:
  "(offset b + width w > capacity b \<longrightarrow> apply_write w b = Inl RangeError) \<and>
   (\<forall>b'. apply_write w b = Inr b' \<longrightarrow>
      capacity b' = capacity b \<and> offset b' = offset b + width w \<and> offset b' \<le> capacity b) \<and>
   capacity (reset b) = capacity b \<and>
   capacity (RawPacketBuilder_new n) = n"
proof (intro conjI impI allI)
  assume "offset b + width w > capacity b"
  then show "apply_write w b = Inl RangeError"
    by (cases w)
      (simp_all add: writeUint8_def writeUint16_def writeUint32_def writeFloat32_def
        writeFloat64_def writeString_def writeBytes_def write_view_overflow
        Uint8Array_set_overflow)
next
  fix b' assume "apply_write w b = Inr b'"
  then show "capacity b' = capacity b" "offset b' = offset b + width w" "offset b' \<le> capacity b"
    by (cases w;
        auto simp: writeUint8_def writeUint16_def writeUint32_def writeFloat32_def
          writeFloat64_def writeString_def writeBytes_def
        dest!: write_view_ok Uint8Array_set_ok)+
next
  show "capacity (reset b) = capacity b" by (simp add: reset_def capacity_def)
  show "capacity (RawPacketBuilder_new n) = n" by (simp add: RawPacketBuilder_new_def capacity_def)
qed

theorem write_past_capacity_raises_witness:
  "apply_write (WriteUint32 1 True) (RawPacketBuilder_new 2) = Inl RangeError \<and>
   apply_write (WriteUint8 7) (RawPacketBuilder_new 2) = Inr \<lparr>buffer = [7, 0], offset = 1\<rparr> \<and>
   capacity \<lparr>buffer = [7, 0], offset = 1\<rparr> = capacity (RawPacketBuilder_new 2)"
proof -
  have a: "apply_write (WriteUint8 7) (RawPacketBuilder_new 2) = Inr \<lparr>buffer = [7, 0], offset = 1\<rparr>"
    by (simp add: writeUint8_def write_view_def DataView_set_def RawPacketBuilder_new_def
        encode_def numeral_2_eq_2)
  have b: "capacity (RawPacketBuilder_new 2) < offset (RawPacketBuilder_new 2) + width (WriteUint32 1 True)"
    by (simp add: RawPacketBuilder_new_def capacity_def)
  from write_past_capacity_raises [of "RawPacketBuilder_new 2" "WriteUint32 1 True" 2] b
    write_past_capacity_raises [of "RawPacketBuilder_new 2" "WriteUint8 7" 2] a
  show ?thesis by simp
qed

section \<open>The polling interval\<close>

lemma listen_loop_chained:
  "chained cur (fst (listen_loop p m cur ticks s))"
proof (induction ticks arbitrary: cur s)
  case Nil
  show ?case by simp
next
  case (Cons t ticks)
  obtain answer stopped where t: "t = (answer, stopped)" by (cases t)
  show ?case
    unfolding t
    by (auto simp: Let_def Cons.IH split: prod.splits sum.splits)
qed

lemma chained_nth:
  "chained c its \<Longrightarrow> Suc i < length its \<Longrightarrow> interval (its ! Suc i) = after (its ! i)"
proof (induction its arbitrary: c i)
  case Nil
  then show ?case by simp
next
  case (Cons it its)
  show ?case
  proof (cases i)
    case 0
    with Cons.prems show ?thesis by (cases its) auto
  next
    case (Suc j)
    with Cons.prems Cons.IH [of "after it" j] show ?thesis by simp
  qed
qed

lemma chained_hd: "chained c its \<Longrightarrow> its \<noteq> [] \<Longrightarrow> interval (hd its) = c"
  by (cases its) auto

lemma listen_loop_step_ok:
  "0 \<le> p \<Longrightarrow> p \<le> m \<Longrightarrow> p \<le> cur \<Longrightarrow> cur \<le> m \<Longrightarrow>
   list_all (step_ok p m) (fst (listen_loop p m cur ticks s))"
proof (induction ticks arbitrary: cur s)
  case Nil
  show ?case by simp
next
  case (Cons t ticks)
  obtain answer stopped where t: "t = (answer, stopped)" by (cases t)
  have reset: "list_all (step_ok p m) (fst (listen_loop p m p ticks s'))" for s'
    using Cons.prems by (intro Cons.IH) simp_all
  have double: "list_all (step_ok p m) (fst (listen_loop p m (min (cur * 2) m) ticks s'))" for s'
    using Cons.prems by (intro Cons.IH) simp_all
  have here: "step_ok p m \<lparr>interval = cur, result = Threw, after = cur\<rparr>"
    "step_ok p m \<lparr>interval = cur, result = Produced, after = p\<rparr>"
    "step_ok p m \<lparr>interval = cur, result = Nothing, after = min (cur * 2) m\<rparr>"
    using Cons.prems by (simp_all add: step_ok_def)
  show ?case
    unfolding t using here reset double
    by (simp add: Let_def split: prod.splits sum.splits)
qed

text \<open>
  Claim C4, as amended. For every run of the polling loop whose parameters satisfy
  \<open>0 \<le> pollIntervalMs \<le> maxPollIntervalMs\<close>: at every iteration \<open>currentInterval\<close> is
  within \<open>[pollIntervalMs, maxPollIntervalMs]\<close>, both when it is passed to \<open>service\<close>
  and after the iteration has updated it; after an iteration whose \<open>service\<close> call
  produced an event it equals \<open>pollIntervalMs\<close>, after one with no event it is doubled
  and capped at \<open>maxPollIntervalMs\<close>, and after one whose \<open>service\<close> call threw it is
  unchanged; the first iteration starts from \<open>pollIntervalMs\<close> and every later one from
  the value the iteration before it ended with.
\<close>

theorem interval_bounds:
  assumes "0 \<le> pollIntervalMs" and "pollIntervalMs \<le> maxPollIntervalMs"
    and "its = fst (listen pollIntervalMs maxPollIntervalMs ticks s)"
    and "i < length its"
  shows "pollIntervalMs \<le> interval (its ! i) \<and> interval (its ! i) \<le> maxPollIntervalMs \<and>
         pollIntervalMs \<le> after (its ! i) \<and> after (its ! i) \<le> maxPollIntervalMs \<and>
         (if result (its ! i) = Produced then after (its ! i) = pollIntervalMs
          else if result (its ! i) = Nothing
               then after (its ! i) = min (interval (its ! i) * 2) maxPollIntervalMs
               else after (its ! i) = interval (its ! i)) \<and>
         (if i = 0 then interval (its ! i) = pollIntervalMs
          else interval (its ! i) = after (its ! (i - 1)))"
proof -
  have all: "list_all (step_ok pollIntervalMs maxPollIntervalMs) its"
    unfolding assms(3) listen_def using assms(1,2) by (intro listen_loop_step_ok) simp_all
  have ch: "chained pollIntervalMs its"
    unfolding assms(3) listen_def by (rule listen_loop_chained)
  from all assms(4) have "step_ok pollIntervalMs maxPollIntervalMs (its ! i)"
    by (simp add: list_all_length)
  moreover have "if i = 0 then interval (its ! i) = pollIntervalMs
          else interval (its ! i) = after (its ! (i - 1))"
  proof (cases i)
    case 0
    with ch assms(4) show ?thesis using chained_hd [of pollIntervalMs its]
      by (cases its) auto
  next
    case (Suc j)
    with ch assms(4) chained_nth [of pollIntervalMs its j] show ?thesis by simp
  qed
  ultimately show ?thesis unfolding step_ok_def by blast
qed

theorem interval_bounds_witness:
  "fst (listen 2 32 [(Idle, False), (Ready (Connect 7), False), (Idle, True), (Idle, False)] sample_server)
     = [\<lparr>interval = 2, result = Nothing, after = 4\<rparr>,
        \<lparr>interval = 4, result = Produced, after = 2\<rparr>,
        \<lparr>interval = 2, result = Nothing, after = 4\<rparr>] \<and>
   interval (fst (listen 2 32 [(Idle, False), (Ready (Connect 7), False), (Idle, True), (Idle, False)]
      sample_server) ! 2) = 2"
proof -
  let ?ticks = "[(Idle, False), (Ready (Connect 7), False), (Idle, True), (Idle, False)]"
  have its: "fst (listen 2 32 ?ticks sample_server)
     = [\<lparr>interval = 2, result = Nothing, after = 4\<rparr>,
        \<lparr>interval = 4, result = Produced, after = 2\<rparr>,
        \<lparr>interval = 2, result = Nothing, after = 4\<rparr>]"
    by (simp add: listen_def service_def sample_server_fields Let_def stop_def emit_def Map_get_def)
  from interval_bounds [of 2 32 "fst (listen 2 32 ?ticks sample_server)" ?ticks sample_server 2] its
  show ?thesis by simp
qed

text \<open>
  Claim C4 as stated, for all parameters, fails: \<open>listen(50, 32)\<close> polls with
  \<open>currentInterval = 50\<close>, above \<open>maxPollIntervalMs = 32\<close>, and after an idle poll
  continues with \<open>32\<close>, below \<open>pollIntervalMs = 50\<close>.
\<close>

theorem interval_out_of_bounds:
  "fst (listen 50 32 [(Idle, False)] sample_server)
     = [\<lparr>interval = 50, result = Nothing, after = 32\<rparr>]"
  by (simp add: listen_def service_def sample_server_fields Let_def)

section \<open>The event state machine\<close>

text \<open>
  Claim C10. A Disconnect event that a \<open>service\<close> call produces for a peer that is not
  in the registry is returned to the caller, leaves the registry unchanged and is still
  published: the call makes exactly one publication, on \<open>'disconnect'\<close>, and it is the
  event, not an error. The publication is delivered as every publication is: for
  subscribers registered with \<open>on\<close> and \<open>once\<close> exactly those that \<open>receivers\<close>
  gives are called, each with the event, and these are all of them when none was
  registered with \<open>once\<close>. Whether the peer is registered makes no difference to who is
  called.
\<close>

theorem late_disconnect_still_published:
  assumes "hostCreated s" and "native_host s" and "\<not> Map_has p (peers s)"
  shows "fst (service t (Ready (Disconnect p d)) s) = Inr (Some (Disconnect p d)) \<and>
         peers (snd (service t (Ready (Disconnect p d)) s)) = peers s \<and>
         emitted (snd (service t (Ready (Disconnect p d)) s))
           = emitted s @ [(''disconnect'', Ev (Disconnect p d))] \<and>
         (\<forall>xs. eventCallbacks s ''disconnect'' = Some xs \<and> subscribed ''disconnect'' xs \<longrightarrow>
            delivered (snd (service t (Ready (Disconnect p d)) s))
              = delivered s @ map (\<lambda>n. (n, Ev (Disconnect p d))) (receivers xs)) \<and>
         (\<forall>hs. eventCallbacks s ''disconnect'' = Some (map Handler hs) \<longrightarrow>
            delivered (snd (service t (Ready (Disconnect p d)) s))
              = delivered s @ map (\<lambda>h. (h, Ev (Disconnect p d))) hs) \<and>
         (\<forall>r. delivered (snd (service t (Ready (Disconnect p d)) (s\<lparr>peers := r\<rparr>)))
              = delivered (snd (service t (Ready (Disconnect p d)) s)))"
proof -
  let ?ev = "Disconnect p d"
  let ?s1 = "s\<lparr>native_log := native_log s @ [N_hostService t]\<rparr>"
  have sv: "service t (Ready ?ev) s = (Inr (Some ?ev), handleEvent ?ev ?s1)"
    using assms(1,2) by (rule service_Ready)
  have a: "fst (service t (Ready ?ev) s) = Inr (Some ?ev)"
    by (simp add: sv)
  have b: "peers (snd (service t (Ready ?ev) s)) = peers s"
    using assms(3) by (simp add: sv)
  have c: "emitted (snd (service t (Ready ?ev) s)) = emitted s @ [(''disconnect'', Ev ?ev)]"
    using assms(3) by (simp add: sv)
  have d: "\<forall>xs. eventCallbacks s ''disconnect'' = Some xs \<and> subscribed ''disconnect'' xs \<longrightarrow>
            delivered (snd (service t (Ready ?ev) s))
              = delivered s @ map (\<lambda>n. (n, Ev ?ev)) (receivers xs)"
  proof (intro allI impI)
    fix xs assume "eventCallbacks s ''disconnect'' = Some xs \<and> subscribed ''disconnect'' xs"
    then have "eventCallbacks ?s1 ''disconnect'' = Some xs" and "subscribed ''disconnect'' xs"
      by simp_all
    from emit_receivers [OF this, of "Ev ?ev"]
    show "delivered (snd (service t (Ready ?ev) s))
              = delivered s @ map (\<lambda>n. (n, Ev ?ev)) (receivers xs)"
      using assms(3) by (simp add: sv)
  qed
  have e: "\<forall>hs. eventCallbacks s ''disconnect'' = Some (map Handler hs) \<longrightarrow>
            delivered (snd (service t (Ready ?ev) s))
              = delivered s @ map (\<lambda>h. (h, Ev ?ev)) hs"
  proof (intro allI impI)
    fix hs assume "eventCallbacks s ''disconnect'' = Some (map Handler hs)"
    then have "eventCallbacks ?s1 ''disconnect'' = Some (map Handler hs)" by simp
    from emit_handlers [OF this, of "Ev ?ev"]
    show "delivered (snd (service t (Ready ?ev) s))
              = delivered s @ map (\<lambda>h. (h, Ev ?ev)) hs"
      using assms(3) by (simp add: sv)
  qed
  have f: "\<forall>r. delivered (snd (service t (Ready ?ev) (s\<lparr>peers := r\<rparr>)))
              = delivered (snd (service t (Ready ?ev) s))"
  proof
    fix r
    have sw: "(s\<lparr>peers := r\<rparr>)\<lparr>native_log := native_log (s\<lparr>peers := r\<rparr>) @ [N_hostService t]\<rparr>
                = ?s1\<lparr>peers := r\<rparr>"
      by simp
    have "service t (Ready ?ev) (s\<lparr>peers := r\<rparr>)
            = (Inr (Some ?ev), handleEvent ?ev (?s1\<lparr>peers := r\<rparr>))"
      using service_Ready [of "s\<lparr>peers := r\<rparr>" t ?ev] assms(1,2) unfolding sw by simp
    then show "delivered (snd (service t (Ready ?ev) (s\<lparr>peers := r\<rparr>)))
              = delivered (snd (service t (Ready ?ev) s))"
      by (simp only: sv snd_conv delivered_Disconnect_any_registry)
  qed
  from a b c d e f show ?thesis by (intro conjI)
qed

theorem late_disconnect_still_published_witness:
  "fst (service 2 (Ready (Disconnect 9 0)) once_server) = Inr (Some (Disconnect 9 0)) \<and>
   peers (snd (service 2 (Ready (Disconnect 9 0)) once_server)) = peers once_server \<and>
   emitted (snd (service 2 (Ready (Disconnect 9 0)) once_server)) = [(''disconnect'', Ev (Disconnect 9 0))] \<and>
   delivered (snd (service 2 (Ready (Disconnect 9 0)) once_server))
     = [(0, Ev (Disconnect 9 0)), (2, Ev (Disconnect 9 0))]"
proof -
  have h: "hostCreated once_server" "native_host once_server" "\<not> Map_has 9 (peers once_server)"
    by (simp_all add: once_server_fields Map_has_def)
  have cb: "eventCallbacks once_server ''disconnect''
              = Some [Handler 0, Wrapped ''disconnect'' (Handler 2), Handler 3]
            \<and> subscribed ''disconnect'' [Handler 0, Wrapped ''disconnect'' (Handler 2), Handler 3]"
    by (simp add: once_server_fields subscribed_def)
  from late_disconnect_still_published [OF h, of 2 0] cb
  have "fst (service 2 (Ready (Disconnect 9 0)) once_server) = Inr (Some (Disconnect 9 0))"
    and "peers (snd (service 2 (Ready (Disconnect 9 0)) once_server)) = peers once_server"
    and "emitted (snd (service 2 (Ready (Disconnect 9 0)) once_server))
           = emitted once_server @ [(''disconnect'', Ev (Disconnect 9 0))]"
    and "delivered (snd (service 2 (Ready (Disconnect 9 0)) once_server))
           = delivered once_server @ map (\<lambda>n. (n, Ev (Disconnect 9 0)))
               (receivers [Handler 0, Wrapped ''disconnect'' (Handler 2), Handler 3])"
    by blast+
  then show ?thesis
    by (simp add: once_server_fields)
qed

text \<open>
  Claim C5. Every event that a \<open>service\<close> call produces is returned to the caller and
  updates the registry by its kind. After a Connect event the peer is registered with
  \<open>connected = true\<close>: a record that was present keeps its other fields and its place,
  a new one is appended, and no other peer's record changes. After a Disconnect event the
  peer is absent and no other peer's record changes. A Receive event leaves the registry
  unchanged and is published as it came: whoever is called gets that very event, and for
  subscribers registered with \<open>on\<close> and \<open>once\<close> those called are exactly the ones
  \<open>receivers\<close> gives. An Unknown event is published as the error
  \<open>Unknown event type\<close> and leaves the registry unchanged.
\<close>

theorem event_state_machine:
  assumes "hostCreated s" and "native_host s"
    and "sc = snd (service t (Ready (Connect p)) s)"
    and "sd = snd (service t (Ready (Disconnect p d)) s)"
    and "sr = snd (service t (Ready (Receive p c b)) s)"
    and "su = snd (service t (Ready Unknown) s)"
  shows "(\<forall>e. fst (service t (Ready e) s) = Inr (Some e)) \<and>
   (\<exists>r. Map_get p (peers sc) = Some r \<and> connected r) \<and>
   (\<forall>r. Map_get p (peers s) = Some r \<longrightarrow>
      Map_get p (peers sc) = Some (r\<lparr>connected := True\<rparr>) \<and>
      map fst (peers sc) = map fst (peers s)) \<and>
   (Map_get p (peers s) = None \<longrightarrow>
      peers sc = peers s @ [(p, \<lparr>connected = True, address = None, port = None\<rparr>)]) \<and>
   (\<forall>q. q \<noteq> p \<longrightarrow> Map_get q (peers sc) = Map_get q (peers s)) \<and>
   emitted sc = emitted s @ [(''connect'', Ev (Connect p))] \<and>
   \<not> Map_has p (peers sd) \<and>
   (\<forall>q. q \<noteq> p \<longrightarrow> Map_get q (peers sd) = Map_get q (peers s)) \<and>
   emitted sd = emitted s @ [(''disconnect'', Ev (Disconnect p d))] \<and>
   peers sr = peers s \<and>
   emitted sr = emitted s @ [(''receive'', Ev (Receive p c b))] \<and>
   (\<exists>ns. delivered sr = delivered s @ map (\<lambda>n. (n, Ev (Receive p c b))) ns) \<and>
   (\<forall>xs. eventCallbacks s ''receive'' = Some xs \<and> subscribed ''receive'' xs \<longrightarrow>
      delivered sr = delivered s @ map (\<lambda>n. (n, Ev (Receive p c b))) (receivers xs)) \<and>
   (\<forall>hs. eventCallbacks s ''receive'' = Some (map Handler hs) \<longrightarrow>
      delivered sr = delivered s @ map (\<lambda>h. (h, Ev (Receive p c b))) hs) \<and>
   peers su = peers s \<and>
   emitted su = emitted s @ [(''error'', Err ''Unknown event type: unknown'')]"
proof -
  let ?s1 = "s\<lparr>native_log := native_log s @ [N_hostService t]\<rparr>"
  note sv = service_Ready [OF assms(1,2), of t]
  have sc: "sc = handleEvent (Connect p) ?s1" and sd: "sd = handleEvent (Disconnect p d) ?s1"
    and sr: "sr = handleEvent (Receive p c b) ?s1" and su: "su = handleEvent Unknown ?s1"
    unfolding assms(3-6) sv by simp_all
  have f1: "peers ?s1 = peers s" "emitted ?s1 = emitted s" "delivered ?s1 = delivered s"
    "eventCallbacks ?s1 = eventCallbacks s"
    by simp_all
  have r0: "\<forall>e. fst (service t (Ready e) s) = Inr (Some e)"
    by (simp add: sv)
  have c1: "\<exists>r. Map_get p (peers sc) = Some r \<and> connected r"
    unfolding sc by (simp add: Map_get_Map_set split: option.splits)
  have c2: "\<forall>r. Map_get p (peers s) = Some r \<longrightarrow>
      Map_get p (peers sc) = Some (r\<lparr>connected := True\<rparr>) \<and>
      map fst (peers sc) = map fst (peers s)"
    unfolding sc by (simp add: Map_get_Map_set Map_set_present)
  have c3: "Map_get p (peers s) = None \<longrightarrow>
      peers sc = peers s @ [(p, \<lparr>connected = True, address = None, port = None\<rparr>)]"
    unfolding sc by (simp add: Map_set_absent)
  have c4: "\<forall>q. q \<noteq> p \<longrightarrow> Map_get q (peers sc) = Map_get q (peers s)"
    unfolding sc by (simp add: Map_get_Map_set split: option.splits)
  have c5: "emitted sc = emitted s @ [(''connect'', Ev (Connect p))]"
    unfolding sc by (simp split: option.splits)
  have d1: "\<not> Map_has p (peers sd)"
    unfolding sd by (simp add: Map_has_Map_delete)
  have d2: "\<forall>q. q \<noteq> p \<longrightarrow> Map_get q (peers sd) = Map_get q (peers s)"
    unfolding sd by (simp add: Map_get_Map_delete)
  have d3: "emitted sd = emitted s @ [(''disconnect'', Ev (Disconnect p d))]"
    unfolding sd by simp
  have r1: "peers sr = peers s"
    unfolding sr by simp
  have r2: "emitted sr = emitted s @ [(''receive'', Ev (Receive p c b))]"
    unfolding sr by simp
  have r3: "\<exists>ns. delivered sr = delivered s @ map (\<lambda>n. (n, Ev (Receive p c b))) ns"
    unfolding sr using emit_as_is [where s = ?s1 and e = "''receive''" and d = "Ev (Receive p c b)"] by simp
  have r4: "\<forall>xs. eventCallbacks s ''receive'' = Some xs \<and> subscribed ''receive'' xs \<longrightarrow>
      delivered sr = delivered s @ map (\<lambda>n. (n, Ev (Receive p c b))) (receivers xs)"
    unfolding sr using emit_receivers [where s = ?s1 and e = "''receive''" and d = "Ev (Receive p c b)"] by simp
  have r5: "\<forall>hs. eventCallbacks s ''receive'' = Some (map Handler hs) \<longrightarrow>
      delivered sr = delivered s @ map (\<lambda>h. (h, Ev (Receive p c b))) hs"
    unfolding sr using emit_handlers [where s = ?s1 and e = "''receive''" and d = "Ev (Receive p c b)"] by simp
  have u1: "peers su = peers s"
    unfolding su by simp
  have u2: "emitted su = emitted s @ [(''error'', Err ''Unknown event type: unknown'')]"
    unfolding su by simp
  from r0 c1 c2 c3 c4 c5 d1 d2 d3 r1 r2 r3 r4 r5 u1 u2 show ?thesis
    by (intro conjI)
qed

theorem event_state_machine_witness:
  "Map_get 7 (peers (snd (service 2 (Ready (Connect 7)) once_server)))
     = Some \<lparr>connected = True, address = Some ''127.0.0.1'', port = Some 17091\<rparr> \<and>
   peers (snd (service 2 (Ready (Connect 9)) once_server))
     = [(7, \<lparr>connected = False, address = Some ''127.0.0.1'', port = Some 17091\<rparr>),
        (9, \<lparr>connected = True, address = None, port = None\<rparr>)] \<and>
   \<not> Map_has 7 (peers (snd (service 2 (Ready (Disconnect 7 0)) once_server))) \<and>
   Map_get 7 (peers (snd (service 2 (Ready (Disconnect 9 0)) once_server)))
     = Some \<lparr>connected = False, address = Some ''127.0.0.1'', port = Some 17091\<rparr> \<and>
   delivered (snd (service 2 (Ready (Receive 7 0 [1, 2])) once_server))
     = [(1, Ev (Receive 7 0 [1, 2])), (5, Ev (Receive 7 0 [1, 2]))] \<and>
   emitted (snd (service 2 (Ready Unknown) once_server))
     = [(''error'', Err ''Unknown event type: unknown'')]"
proof -
  have h: "hostCreated once_server" "native_host once_server"
    by (simp_all add: once_server_fields)
  have old: "Map_get 7 (peers once_server)
      = Some \<lparr>connected = False, address = Some ''127.0.0.1'', port = Some 17091\<rparr>"
    and new: "Map_get 9 (peers once_server) = None"
    and cb: "eventCallbacks once_server ''receive''
               = Some [Handler 1, Wrapped ''receive'' (Handler 5), Handler 6]
             \<and> subscribed ''receive'' [Handler 1, Wrapped ''receive'' (Handler 5), Handler 6]"
    by (simp_all add: once_server_fields Map_get_def subscribed_def)
  from event_state_machine [OF h refl refl refl refl, of 2 7 0 0 "[1, 2]"] old cb
  have a: "Map_get 7 (peers (snd (service 2 (Ready (Connect 7)) once_server)))
      = Some (\<lparr>connected = False, address = Some ''127.0.0.1'', port = Some 17091\<rparr>\<lparr>connected := True\<rparr>)"
    and a': "\<not> Map_has 7 (peers (snd (service 2 (Ready (Disconnect 7 0)) once_server)))"
    and d: "delivered (snd (service 2 (Ready (Receive 7 0 [1, 2])) once_server))
      = delivered once_server @ map (\<lambda>n. (n, Ev (Receive 7 0 [1, 2])))
          (receivers [Handler 1, Wrapped ''receive'' (Handler 5), Handler 6])"
    and u: "emitted (snd (service 2 (Ready Unknown) once_server))
      = emitted once_server @ [(''error'', Err ''Unknown event type: unknown'')]"
    by blast+
  from event_state_machine [OF h refl refl refl refl, of 2 9 0 0 "[]"] new
  have b: "peers (snd (service 2 (Ready (Connect 9)) once_server))
      = peers once_server @ [(9, \<lparr>connected = True, address = None, port = None\<rparr>)]"
    and c: "Map_get 7 (peers (snd (service 2 (Ready (Disconnect 9 0)) once_server)))
      = Map_get 7 (peers once_server)"
    by force+
  from a a' b c d u old show ?thesis
    by (simp add: once_server_fields)
qed

section \<open>The sample sessions, evaluated\<close>

lemma connected_server_fields:
  "peers connected_server
     = [(7, \<lparr>connected = True, address = None, port = None\<rparr>),
        (9, \<lparr>connected = True, address = None, port = None\<rparr>)]"
  "emitted connected_server = [(''connect'', Ev (Connect 7)), (''connect'', Ev (Connect 9))]"
  "eventCallbacks connected_server ''error'' = Some []"
  "native_log connected_server
     = [N_createHost (Some (''127.0.0.1'', 17091)) 32, N_setCompression False, N_setChecksum False]"
  by (simp_all add: connected_server_def sample_server_fields Map_get_def emit_def
      sample_server_def createServer_def native_createHost_def setupHost_def
      native_set_def Server_new_def ENetBase_new_def Server_config_def default_options_def
      loopback_def Let_def on_def)

lemma sample_client_fields:
  "serverPeer sample_client = None" "peers sample_client = []" "emitted sample_client = []"
  "hostCreated sample_client" "native_host sample_client" "running sample_client = False"
  "eventCallbacks sample_client ''error'' = Some []"
  "eventCallbacks sample_client ''connect'' = Some []"
  "next_race sample_client = 0"
  "native_log sample_client = [N_createHost None 1, N_setCompression False, N_setChecksum False]"
  by (simp_all add: sample_client_def Client_new_def createClient_def native_createHost_def
      setupHost_def native_set_def ENetBase_new_def Client_config_def default_options_def
      loopback_def Let_def)

lemma sample_client_config:
  "ip (session_config sample_client) = ''127.0.0.1''"
  "cfg_port (session_config sample_client) = 17091"
  "channelLimit (session_config sample_client) = 2"
  by (simp_all add: sample_client_def Client_new_def createClient_def native_createHost_def
      setupHost_def native_set_def ENetBase_new_def Client_config_def default_options_def
      loopback_def Let_def)

lemma awaiting_client_fields:
  "serverPeer awaiting_client = Some 4096"
  "peers awaiting_client = [(4096, \<lparr>connected = False, address = Some ''127.0.0.1'', port = Some 17091\<rparr>)]"
  "running awaiting_client"
  "hostCreated awaiting_client" "native_host awaiting_client"
  "eventCallbacks awaiting_client ''connect'' = Some [Wrapped ''connect'' (OnConnected 0)]"
  "eventCallbacks awaiting_client ''error'' = Some []"
  "races awaiting_client 0 = \<lparr>timer = Armed, outcome = Pending\<rparr>"
  "emitted awaiting_client = []"
  "next_race awaiting_client = 1"
  by (simp_all add: awaiting_client_def connect_def native_connect_def sample_client_fields
      loopback_def Let_def listen_def service_def await_connect_def once_def on_def
      sample_client_config)

lemma checksum_server_fields:
  "native_initialized (Server_new CJS checksum_options)"
  "native_log (Server_new CJS checksum_options) = []"
  "ip (session_config (Server_new CJS checksum_options)) = ''127.0.0.1''"
  "cfg_port (session_config (Server_new CJS checksum_options)) = 17091"
  "maxPeer (session_config (Server_new CJS checksum_options)) = 32"
  "compression (session_config (Server_new CJS checksum_options)) = Some False"
  "checksum (session_config (Server_new CJS checksum_options)) = Some True"
  "usingNewPacketForServer (session_config (Server_new CJS checksum_options))"
  by (simp_all add: Server_new_def ENetBase_new_def Server_config_def checksum_options_def
      default_options_def)

section \<open>Send after disconnect\<close>

lemma send_fields:
  "peers (snd (send eng p c d r s)) = peers s"
  "native_log (snd (send eng p c d r s)) = native_log s @ [N_sendPacket p c d (if r then 1 else 0)]"
  "emitted (snd (send eng p c d r s))
     = emitted s @ (case native_sendPacket eng p d of Inl err \<Rightarrow> [(''error'', Err err)] | Inr status \<Rightarrow> [])"
  "fst (send eng p c d r s) = (case native_sendPacket eng p d of Inl err \<Rightarrow> - 1 | Inr status \<Rightarrow> status)"
  "serverPeer (snd (send eng p c d r s)) = serverPeer s"
  by (simp_all add: send_def Let_def split: sum.splits)

lemma sendRawPacket_fields:
  "peers (snd (sendRawPacket eng p c d f s)) = peers s"
  "native_log (snd (sendRawPacket eng p c d f s)) = native_log s @ [N_sendRawPacket p c d f]"
  "emitted (snd (sendRawPacket eng p c d f s))
     = emitted s @ (case native_sendRawPacket eng p d of Inl err \<Rightarrow> [(''error'', Err err)] | Inr status \<Rightarrow> [])"
  "fst (sendRawPacket eng p c d f s) = (case native_sendRawPacket eng p d of Inl err \<Rightarrow> - 1 | Inr status \<Rightarrow> status)"
  by (simp_all add: sendRawPacket_def Let_def split: sum.splits)

lemma disconnect_variant_valid:
  "JsValueToPeer p \<Longrightarrow>
     peers (disconnect_variant v p d s) = Map_delete p (peers s) \<and>
     emitted (disconnect_variant v p d s) = emitted s \<and>
     serverPeer (disconnect_variant v p d s) = serverPeer s"
  by (cases v) (simp_all add: disconnect_def disconnectNow_def disconnectLater_def
      native_disconnect_def Let_def)

lemma disconnect_variant_invalid:
  "\<not> JsValueToPeer p \<Longrightarrow>
     peers (disconnect_variant v p d s) = peers s \<and>
     emitted (disconnect_variant v p d s) = emitted s @ [(''error'', Err ''Invalid peer id'')]"
  by (cases v) (simp_all add: disconnect_def disconnectNow_def disconnectLater_def
      native_disconnect_def Let_def)

lemma client_disconnect_variant_valid:
  assumes "JsValueToPeer p" and "serverPeer s = Some p"
  shows "serverPeer (client_disconnect_variant v d s) = None \<and>
         peers (client_disconnect_variant v d s) = Map_delete p (peers s) \<and>
         emitted (client_disconnect_variant v d s) = emitted s"
proof -
  from assms have t: "truthy_peer (serverPeer s)" by (simp add: JsValueToPeer_def)
  have "client_disconnect_variant v d s = (disconnect_variant v p d s)\<lparr>serverPeer := None\<rparr>"
    using t assms(2)
    by (cases v)
      (simp_all add: client_disconnect_def client_disconnectNow_def client_disconnectLater_def)
  with disconnect_variant_valid [OF assms(1), of v d s] show ?thesis by simp
qed

text \<open>
  Claim C2, as amended. For every peer P with a valid handle and every disconnect variant
  (\<open>disconnect\<close>, \<open>disconnectNow\<close>, \<open>disconnectLater\<close>), immediately after the call
  returns P is absent from the registry, the other peers are untouched and nothing has
  been published. An immediately following base-level \<open>send\<close> to P does not look at the
  registry: it hands the packet to the transport and returns the transport's status
  without publishing anything, and only when the native call throws does it return
  \<open>-1\<close> and publish the error. On a client whose \<open>serverPeer\<close> is P, the instance-level
  disconnect variants also clear \<open>serverPeer\<close>, so the instance-level \<open>send\<close> that
  follows returns \<open>-1\<close> and publishes \<open>Not connected to server\<close>.
\<close>

theorem disconnect_then_send:
  assumes "JsValueToPeer p"
  shows "\<not> Map_has p (peers (disconnect_variant v p d s)) \<and>
         (\<forall>q. q \<noteq> p \<longrightarrow> Map_get q (peers (disconnect_variant v p d s)) = Map_get q (peers s)) \<and>
         emitted (disconnect_variant v p d s) = emitted s \<and>
         (\<forall>status. native_sendPacket eng p dat = Inr status \<longrightarrow>
            fst (send eng p c dat r (disconnect_variant v p d s)) = status \<and>
            emitted (snd (send eng p c dat r (disconnect_variant v p d s))) = emitted s) \<and>
         (\<forall>err. native_sendPacket eng p dat = Inl err \<longrightarrow>
            fst (send eng p c dat r (disconnect_variant v p d s)) = - 1 \<and>
            emitted (snd (send eng p c dat r (disconnect_variant v p d s)))
              = emitted s @ [(''error'', Err err)]) \<and>
         (packet_create_ok eng \<longrightarrow>
            fst (send eng p c (Buffer bs) r (disconnect_variant v p d s)) = peer_send eng p \<and>
            emitted (snd (send eng p c (Buffer bs) r (disconnect_variant v p d s))) = emitted s \<and>
            fst (send eng p c (TypedArray bs) r (disconnect_variant v p d s)) = peer_send eng p \<and>
            emitted (snd (send eng p c (TypedArray bs) r (disconnect_variant v p d s))) = emitted s \<and>
            fst (send eng p c (String str) r (disconnect_variant v p d s)) = peer_send eng p \<and>
            emitted (snd (send eng p c (String str) r (disconnect_variant v p d s))) = emitted s) \<and>
         (serverPeer s = Some p \<longrightarrow>
            serverPeer (client_disconnect_variant v d s) = None \<and>
            \<not> Map_has p (peers (client_disconnect_variant v d s)) \<and>
            fst (client_send eng c dat r (client_disconnect_variant v d s)) = - 1 \<and>
            emitted (snd (client_send eng c dat r (client_disconnect_variant v d s)))
              = emitted s @ [(''error'', Err ''Not connected to server'')])"
proof -
  note dv = disconnect_variant_valid [OF assms, of v d s]
  have a: "\<not> Map_has p (peers (disconnect_variant v p d s))"
    using dv by (simp add: Map_has_Map_delete)
  have b: "\<forall>q. q \<noteq> p \<longrightarrow> Map_get q (peers (disconnect_variant v p d s)) = Map_get q (peers s)"
    using dv by (simp add: Map_get_Map_delete)
  have c: "emitted (disconnect_variant v p d s) = emitted s"
    using dv by simp
  have d: "\<forall>status. native_sendPacket eng p dat = Inr status \<longrightarrow>
            fst (send eng p c dat r (disconnect_variant v p d s)) = status \<and>
            emitted (snd (send eng p c dat r (disconnect_variant v p d s))) = emitted s"
    using c by (simp add: send_fields)
  have e: "\<forall>err. native_sendPacket eng p dat = Inl err \<longrightarrow>
            fst (send eng p c dat r (disconnect_variant v p d s)) = - 1 \<and>
            emitted (snd (send eng p c dat r (disconnect_variant v p d s)))
              = emitted s @ [(''error'', Err err)]"
    using c by (simp add: send_fields)
  have f: "packet_create_ok eng \<longrightarrow>
            fst (send eng p c (Buffer bs) r (disconnect_variant v p d s)) = peer_send eng p \<and>
            emitted (snd (send eng p c (Buffer bs) r (disconnect_variant v p d s))) = emitted s \<and>
            fst (send eng p c (TypedArray bs) r (disconnect_variant v p d s)) = peer_send eng p \<and>
            emitted (snd (send eng p c (TypedArray bs) r (disconnect_variant v p d s))) = emitted s \<and>
            fst (send eng p c (String str) r (disconnect_variant v p d s)) = peer_send eng p \<and>
            emitted (snd (send eng p c (String str) r (disconnect_variant v p d s))) = emitted s"
    using c assms by (simp add: send_fields native_sendPacket_def)
  have g: "serverPeer s = Some p \<longrightarrow>
            serverPeer (client_disconnect_variant v d s) = None \<and>
            \<not> Map_has p (peers (client_disconnect_variant v d s)) \<and>
            fst (client_send eng c dat r (client_disconnect_variant v d s)) = - 1 \<and>
            emitted (snd (client_send eng c dat r (client_disconnect_variant v d s)))
              = emitted s @ [(''error'', Err ''Not connected to server'')]"
  proof
    assume sp: "serverPeer s = Some p"
    note cv = client_disconnect_variant_valid [OF assms sp, of v d]
    then show "serverPeer (client_disconnect_variant v d s) = None \<and>
            \<not> Map_has p (peers (client_disconnect_variant v d s)) \<and>
            fst (client_send eng c dat r (client_disconnect_variant v d s)) = - 1 \<and>
            emitted (snd (client_send eng c dat r (client_disconnect_variant v d s)))
              = emitted s @ [(''error'', Err ''Not connected to server'')]"
      by (simp add: client_send_def Map_has_Map_delete)
  qed
  from a b c d e f g show ?thesis by (intro conjI)
qed

theorem disconnect_then_send_witness:
  "\<not> Map_has 7 (peers (disconnectNow 7 0 connected_server)) \<and>
   fst (send refusing 7 0 (TypedArray [1]) True (disconnectNow 7 0 connected_server)) = - 1 \<and>
   emitted (snd (send refusing 7 0 (TypedArray [1]) True (disconnectNow 7 0 connected_server)))
     = emitted connected_server \<and>
   fst (send refusing 7 0 (Buffer [1]) True (disconnectNow 7 0 connected_server)) = - 1 \<and>
   emitted (snd (send refusing 7 0 (Buffer [1]) True (disconnectNow 7 0 connected_server)))
     = emitted connected_server \<and>
   serverPeer (client_disconnectLater 0 awaiting_client) = None \<and>
   fst (client_send loopback 0 (Buffer [1]) True (client_disconnectLater 0 awaiting_client)) = - 1 \<and>
   emitted (snd (client_send loopback 0 (Buffer [1]) True (client_disconnectLater 0 awaiting_client)))
     = [(''error'', Err ''Not connected to server'')]"
proof -
  have v: "JsValueToPeer 7" "JsValueToPeer 4096"
    by (simp_all add: JsValueToPeer_def)
  have e: "packet_create_ok refusing" "peer_send refusing 7 = - 1"
    by (simp_all add: refusing_def loopback_def)
  from disconnect_then_send [OF v(1), of Now 0 connected_server refusing "Buffer [1]" 0 True "[1]"] e
  have a: "\<not> Map_has 7 (peers (disconnectNow 7 0 connected_server))"
    and t: "fst (send refusing 7 0 (TypedArray [1]) True (disconnectNow 7 0 connected_server)) = - 1"
      "emitted (snd (send refusing 7 0 (TypedArray [1]) True (disconnectNow 7 0 connected_server)))
         = emitted connected_server"
    and b: "fst (send refusing 7 0 (Buffer [1]) True (disconnectNow 7 0 connected_server)) = - 1"
    and c: "emitted (snd (send refusing 7 0 (Buffer [1]) True (disconnectNow 7 0 connected_server)))
       = emitted connected_server"
    by simp_all
  from disconnect_then_send [OF v(2), of Later 0 awaiting_client loopback "Buffer [1]" 0 True]
  have "serverPeer (client_disconnectLater 0 awaiting_client) = None"
    and "fst (client_send loopback 0 (Buffer [1]) True (client_disconnectLater 0 awaiting_client)) = - 1"
    and "emitted (snd (client_send loopback 0 (Buffer [1]) True (client_disconnectLater 0 awaiting_client)))
       = emitted awaiting_client @ [(''error'', Err ''Not connected to server'')]"
    by (simp_all add: awaiting_client_fields)
  with a t b c show ?thesis
    by (simp add: awaiting_client_fields)
qed

text \<open>
  Claim C2 as stated fails on a server: after \<open>disconnect(7)\<close> the transport rejects
  \<open>send(7, ...)\<close> with status \<open>-1\<close>, which \<open>send\<close> returns, and no error is published:
  the publications are still the two Connect events of the sample.
\<close>

theorem send_after_disconnect_silent:
  "fst (send refusing 7 0 (String ''hi'') True (disconnect 7 0 connected_server)) = - 1 \<and>
   emitted (snd (send refusing 7 0 (String ''hi'') True (disconnect 7 0 connected_server)))
     = [(''connect'', Ev (Connect 7)), (''connect'', Ev (Connect 9))]"
  by (simp add: send_def disconnect_def native_disconnect_def native_sendPacket_def JsValueToPeer_def
      refusing_def loopback_def Let_def connected_server_fields)

section \<open>The client without a server peer\<close>

text \<open>
  Claim C7, as amended. While \<open>serverPeer\<close> is unset, the client's instance-level
  \<open>send\<close> and \<open>sendRawPacket\<close> return \<open>-1\<close> and publish the error
  \<open>Not connected to server\<close> without calling the addon; the instance-level
  \<open>disconnect\<close>, \<open>disconnectNow\<close> and \<open>disconnectLater\<close> do nothing at all: no
  error is published and the session is unchanged.
\<close>

theorem client_without_server_peer:
  assumes "\<not> truthy_peer (serverPeer s)"
  shows "fst (client_send eng c dat r s) = - 1 \<and>
         emitted (snd (client_send eng c dat r s)) = emitted s @ [(''error'', Err ''Not connected to server'')] \<and>
         native_log (snd (client_send eng c dat r s)) = native_log s \<and>
         fst (client_sendRawPacket eng c dat f s) = - 1 \<and>
         emitted (snd (client_sendRawPacket eng c dat f s))
           = emitted s @ [(''error'', Err ''Not connected to server'')] \<and>
         native_log (snd (client_sendRawPacket eng c dat f s)) = native_log s \<and>
         client_disconnect_variant v d s = s"
  using assms
  by (cases v)
    (simp_all add: client_send_def client_sendRawPacket_def client_disconnect_def
      client_disconnectNow_def client_disconnectLater_def)

theorem client_without_server_peer_witness:
  "fst (client_send loopback 0 (String ''hi'') True sample_client) = - 1 \<and>
   emitted (snd (client_send loopback 0 (String ''hi'') True sample_client))
     = [(''error'', Err ''Not connected to server'')] \<and>
   fst (client_sendRawPacket loopback 0 (String ''hi'') 1 sample_client) = - 1 \<and>
   client_disconnect_variant Later 0 sample_client = sample_client"
proof -
  have h: "\<not> truthy_peer (serverPeer sample_client)"
    by (simp add: sample_client_fields)
  from client_without_server_peer [OF h, of loopback 0 "String ''hi''" True 1 Later 0]
  show ?thesis by (simp add: sample_client_fields)
qed

text \<open>
  Claim C7 as stated fails for the disconnect variants: on a client that has never
  connected each of them returns with the session unchanged, so nothing is published.
\<close>

theorem disconnect_unset_is_silent:
  "client_disconnect 0 sample_client = sample_client \<and>
   client_disconnectNow 0 sample_client = sample_client \<and>
   client_disconnectLater 0 sample_client = sample_client \<and>
   emitted sample_client = []"
  by (simp add: client_disconnect_def client_disconnectNow_def client_disconnectLater_def
      sample_client_fields)

section \<open>Broadcast reaches every connected peer\<close>

lemma broadcast_loop_fields:
  "peers (broadcast_loop eng c d r reg s) = peers s \<and>
   native_log (broadcast_loop eng c d r reg s)
     = native_log s @ map (\<lambda>p. N_sendPacket p c d (if r then 1 else 0))
         (map fst (filter (\<lambda>e. connected (snd e)) reg)) \<and>
   emitted (broadcast_loop eng c d r reg s)
     = emitted s @ concat (map (\<lambda>p. case native_sendPacket eng p d of
                                     Inl err \<Rightarrow> [(''error'', Err err)] | Inr status \<Rightarrow> [])
         (map fst (filter (\<lambda>e. connected (snd e)) reg)))"
proof (induction reg arbitrary: s)
  case Nil
  show ?case by simp
next
  case (Cons e reg)
  obtain peerId peerInfo where e: "e = (peerId, peerInfo)" by (cases e)
  show ?case
    unfolding e by (simp add: Cons.IH send_fields)
qed

text \<open>
  Claim C6, as amended. A broadcast on a server whose registry holds N entries with
  \<open>connected = true\<close> makes exactly N calls of the native send, one per such entry, in
  registry order, whatever each attempt's outcome; the registry is unchanged. An attempt
  whose native call throws is published as an error, in order; an attempt that the
  transport rejects with a negative status is not published, and its status is dropped.
\<close>

theorem broadcast_attempts:
  "native_log (broadcast eng c d r s)
     = native_log s @ map (\<lambda>p. N_sendPacket p c d (if r then 1 else 0)) (targets s) \<and>
   length (targets s) = length (filter (\<lambda>e. connected (snd e)) (peers s)) \<and>
   emitted (broadcast eng c d r s)
     = emitted s @ concat (map (\<lambda>p. case native_sendPacket eng p d of
                                     Inl err \<Rightarrow> [(''error'', Err err)] | Inr status \<Rightarrow> [])
         (targets s)) \<and>
   peers (broadcast eng c d r s) = peers s"
  using broadcast_loop_fields [of eng c d r "peers s" s]
  by (simp add: broadcast_def targets_def)

theorem broadcast_attempts_witness:
  "native_log (broadcast loopback 0 (String ''hi'') True connected_server)
     = native_log connected_server
       @ [N_sendPacket 7 0 (String ''hi'') 1, N_sendPacket 9 0 (String ''hi'') 1] \<and>
   emitted (broadcast loopback 0 (TypedArray [1]) True connected_server) = emitted connected_server \<and>
   emitted (broadcast loopback 0 Other True connected_server)
     = emitted connected_server
       @ [(''error'', Err ''Data must be a Buffer or string''),
          (''error'', Err ''Data must be a Buffer or string'')]"
  using broadcast_attempts [of loopback 0 "String ''hi''" True connected_server]
    broadcast_attempts [of loopback 0 "TypedArray [1]" True connected_server]
    broadcast_attempts [of loopback 0 Other True connected_server]
  by (simp add: targets_def connected_server_fields native_sendPacket_def JsValueToPeer_def
      loopback_def)

text \<open>
  Claim C6 as stated fails in its report of failures: when the transport rejects the
  packets with status \<open>-1\<close>, both attempts are made and no error is published.
\<close>

theorem rejected_send_not_reported:
  "native_log (broadcast refusing 0 (String ''hi'') True connected_server)
     = native_log connected_server
       @ [N_sendPacket 7 0 (String ''hi'') 1, N_sendPacket 9 0 (String ''hi'') 1] \<and>
   native_sendPacket refusing 7 (String ''hi'') = Inr (- 1) \<and>
   emitted (broadcast refusing 0 (String ''hi'') True connected_server) = emitted connected_server"
  by (simp add: broadcast_def send_def Let_def connected_server_fields native_sendPacket_def
      JsValueToPeer_def refusing_def loopback_def)

section \<open>Toggles after host creation\<close>

lemma setupHost_with_host:
  "native_host s \<Longrightarrow>
   setupHost b cfg isServer s = (Inr (), s\<lparr>native_log := native_log s @ toggles b cfg isServer\<rparr>)"
  by (simp add: setupHost_def native_set_def toggles_def Let_def)

lemma native_createHost_ok:
  "native_initialized s \<Longrightarrow> host_create_ok eng \<Longrightarrow> hc = None \<or> address_ok eng \<Longrightarrow>
   native_createHost eng hc n s
     = (Inr True, s\<lparr>native_log := native_log s @ [N_createHost hc n], native_host := True\<rparr>)"
  by (auto simp: native_createHost_def Let_def)

lemma native_createHost_fails:
  "\<not> (native_initialized s \<and> host_create_ok eng \<and> (hc = None \<or> address_ok eng)) \<Longrightarrow>
   \<exists>err s'. native_createHost eng hc n s = (Inl err, s') \<and>
       native_log s' = native_log s @ [N_createHost hc n] \<and> hostCreated s' = hostCreated s"
  by (auto simp: native_createHost_def Let_def)

text \<open>
  Claim C8, as amended. For every successful host creation, server or client, the addon
  is called in this order: \<open>createHost\<close>, \<open>setCompression\<close>, \<open>setChecksum\<close>, then
  \<open>setNewPacket(true, isServer)\<close> exactly when the configuration asks for the new packet
  mode; only then is the host marked ready (\<open>setupHost\<close> itself leaves \<open>hostCreated\<close>
  alone). In the CommonJS build the compression and checksum arguments are the booleans of
  the session's configuration; in the ES-module build, whose configuration has no such
  fields, both are always \<open>true\<close>. When the engine cannot create the host, no toggle is
  applied and the host is not marked ready.
\<close>

theorem toggles_after_creation:
  assumes "native_initialized s"
  shows "(host_create_ok eng \<and> address_ok eng \<and> isPortAvailable \<longrightarrow>
            fst (createServer b eng isPortAvailable s) = Inr True \<and>
            hostCreated (snd (createServer b eng isPortAvailable s)) \<and>
            native_log (snd (createServer b eng isPortAvailable s))
              = native_log s
                @ [N_createHost (Some (ip (session_config s), cfg_port (session_config s)))
                     (maxPeer (session_config s))]
                @ [N_setCompression (case b of CJS \<Rightarrow> truthy (compression (session_config s)) | ESM \<Rightarrow> True),
                   N_setChecksum (case b of CJS \<Rightarrow> truthy (checksum (session_config s)) | ESM \<Rightarrow> True)]
                @ (if usingNewPacket (session_config s) \<or> usingNewPacketForServer (session_config s)
                   then [N_setNewPacket True True] else [])) \<and>
         (host_create_ok eng \<longrightarrow>
            fst (createClient b eng s) = Inr () \<and>
            hostCreated (snd (createClient b eng s)) \<and>
            native_log (snd (createClient b eng s))
              = native_log s @ [N_createHost None 1]
                @ [N_setCompression (case b of CJS \<Rightarrow> truthy (compression (session_config s)) | ESM \<Rightarrow> True),
                   N_setChecksum (case b of CJS \<Rightarrow> truthy (checksum (session_config s)) | ESM \<Rightarrow> True)]
                @ (if usingNewPacket (session_config s) \<or> usingNewPacketForServer (session_config s)
                   then [N_setNewPacket True False] else [])) \<and>
         (\<not> host_create_ok eng \<longrightarrow>
            hostCreated (snd (createClient b eng s)) = hostCreated s \<and>
            native_log (snd (createClient b eng s)) = native_log s @ [N_createHost None 1] \<and>
            hostCreated (snd (createServer b eng isPortAvailable s)) = hostCreated s \<and>
            native_log (snd (createServer b eng isPortAvailable s))
              = native_log s
                @ (if isPortAvailable
                   then [N_createHost (Some (ip (session_config s), cfg_port (session_config s)))
                           (maxPeer (session_config s))]
                   else [])) \<and>
         hostCreated (snd (setupHost b (session_config s) isServer s)) = hostCreated s"
proof -
  have srv: "host_create_ok eng \<and> address_ok eng \<and> isPortAvailable \<longrightarrow>
      createServer b eng isPortAvailable s
      = (Inr True,
         s\<lparr>native_log := native_log s
              @ [N_createHost (Some (ip (session_config s), cfg_port (session_config s)))
                   (maxPeer (session_config s))]
              @ toggles b (session_config s) True,
           native_host := True, hostCreated := True\<rparr>)"
    using assms by (simp add: createServer_def native_createHost_ok setupHost_with_host)
  have cli: "host_create_ok eng \<longrightarrow> createClient b eng s
      = (Inr (),
         s\<lparr>native_log := native_log s @ [N_createHost None 1] @ toggles b (session_config s) False,
           native_host := True, hostCreated := True\<rparr>)"
    using assms by (simp add: createClient_def native_createHost_ok setupHost_with_host)
  have fail: "\<not> host_create_ok eng \<longrightarrow>
            hostCreated (snd (createClient b eng s)) = hostCreated s \<and>
            native_log (snd (createClient b eng s)) = native_log s @ [N_createHost None 1] \<and>
            hostCreated (snd (createServer b eng isPortAvailable s)) = hostCreated s \<and>
            native_log (snd (createServer b eng isPortAvailable s))
              = native_log s
                @ (if isPortAvailable
                   then [N_createHost (Some (ip (session_config s), cfg_port (session_config s)))
                           (maxPeer (session_config s))]
                   else [])"
    using assms by (simp add: createClient_def createServer_def native_createHost_def Let_def)
  have keep: "hostCreated (snd (setupHost b (session_config s) isServer s)) = hostCreated s"
    by (simp add: setupHost_def native_set_def Let_def split: prod.splits sum.splits)
  show ?thesis
    using srv cli fail keep by (simp add: toggles_def)
qed

theorem toggles_after_creation_witness:
  "native_log (snd (createServer CJS loopback True (Server_new CJS checksum_options)))
     = [N_createHost (Some (''127.0.0.1'', 17091)) 32, N_setCompression False, N_setChecksum True,
        N_setNewPacket True True] \<and>
   hostCreated (snd (createServer CJS loopback True (Server_new CJS checksum_options)))"
proof -
  let ?s = "Server_new CJS checksum_options"
  have h: "native_initialized ?s" "host_create_ok loopback \<and> address_ok loopback \<and> True"
    by (simp_all add: checksum_server_fields loopback_def)
  from toggles_after_creation [OF h(1), where eng = loopback and isPortAvailable = True and b = CJS] h(2)
  have "hostCreated (snd (createServer CJS loopback True ?s))"
    and "native_log (snd (createServer CJS loopback True ?s))
              = native_log ?s
                @ [N_createHost (Some (ip (session_config ?s), cfg_port (session_config ?s)))
                     (maxPeer (session_config ?s))]
                @ [N_setCompression (case CJS of CJS \<Rightarrow> truthy (compression (session_config ?s)) | ESM \<Rightarrow> True),
                   N_setChecksum (case CJS of CJS \<Rightarrow> truthy (checksum (session_config ?s)) | ESM \<Rightarrow> True)]
                @ (if usingNewPacket (session_config ?s) \<or> usingNewPacketForServer (session_config ?s)
                   then [N_setNewPacket True True] else [])"
    by blast+
  then show ?thesis
    by (simp add: checksum_server_fields)
qed

text \<open>
  Claim C8 as stated fails in the ES-module build: a server constructed with
  \<open>checksum: false\<close> and \<open>compression: false\<close> still has both switched on.
\<close>

theorem esm_ignores_config:
  "native_log (snd (createServer ESM loopback True
       (Server_new ESM (default_options\<lparr>o_checksum := Some False, o_compression := Some False\<rparr>))))
     = [N_createHost (Some (''127.0.0.1'', 17091)) 32, N_setCompression True, N_setChecksum True]"
  by (simp add: createServer_def native_createHost_def setupHost_def
      native_set_def Server_new_def ENetBase_new_def Server_config_def default_options_def
      loopback_def Let_def)

section \<open>The race between the connect subscriber and the timer\<close>

text \<open>
  Claim C1 (the code departs from it). The sample client calls
  \<open>connect({timeoutMs: 50})\<close> and the timer expires before any Connect event. The timer
  callback calls \<open>off('connect', onConnected)\<close>, but the list holds the wrapper that
  \<open>once\<close> registered, not \<open>onConnected\<close>: the wrapper is still subscribed after the
  timeout. The promise is rejected and the timeout error published.
\<close>

theorem timeout_leaves_subscriber:
  "eventCallbacks (timer_callback 0 awaiting_client) ''connect'' = Some [Wrapped ''connect'' (OnConnected 0)] \<and>
   races (timer_callback 0 awaiting_client) 0 = \<lparr>timer = Expired, outcome = Rejected ''Connect timeout''\<rparr> \<and>
   emitted (timer_callback 0 awaiting_client) = [(''error'', Err ''Connect timeout'')]"
  by (simp add: timer_callback_def off_def reject_def emit_def Let_def awaiting_client_fields)

text \<open>The leaked wrapper goes only when a later Connect event runs it; the promise stays
  rejected then. When the Connect event comes first, the wrapper removes itself, the
  timer is cleared and the promise resolved, and the timer callback never runs.\<close>

lemma late_connect_after_timeout:
  "eventCallbacks (handleEvent (Connect 4096) (timer_callback 0 awaiting_client)) ''connect'' = Some [] \<and>
   races (handleEvent (Connect 4096) (timer_callback 0 awaiting_client)) 0
     = \<lparr>timer = Expired, outcome = Rejected ''Connect timeout''\<rparr>"
  by (simp add: timer_callback_def off_def reject_def resolve_def clearTimeout_def emit_def visit_def
      Let_def awaiting_client_fields Map_get_def)

lemma connect_before_timeout:
  "eventCallbacks (handleEvent (Connect 4096) awaiting_client) ''connect'' = Some [] \<and>
   races (handleEvent (Connect 4096) awaiting_client) 0 = \<lparr>timer = Cleared, outcome = Resolved\<rparr> \<and>
   timer_callback 0 (handleEvent (Connect 4096) awaiting_client) = handleEvent (Connect 4096) awaiting_client"
  by (simp add: timer_callback_def off_def reject_def resolve_def clearTimeout_def emit_def visit_def
      Let_def awaiting_client_fields Map_get_def)

text \<open>In general: the timer callback removes \<open>onConnected\<close>, which is not in the list.\<close>

lemma timer_callback_keeps_wrapper:
  assumes "eventCallbacks s ''connect'' = Some list" and "OnConnected (next_race s) \<notin> set list"
    and "eventCallbacks s ''error'' = Some (map Handler hs)"
  shows "eventCallbacks (timer_callback (next_race s) (await_connect s)) ''connect''
           = Some (list @ [Wrapped ''connect'' (OnConnected (next_race s))])"
proof -
  let ?k = "next_race s"
  let ?a = "await_connect s"
  have a: "eventCallbacks ?a = (eventCallbacks s)(''connect'' \<mapsto> list @ [Wrapped ''connect'' (OnConnected ?k)])"
    "timer (races ?a ?k) = Armed" "outcome (races ?a ?k) = Pending"
    using assms(1) by (simp_all add: await_connect_def once_def on_def Let_def)
  let ?r = "reject ?k ''Connect timeout''
              (off ''connect'' (OnConnected ?k) (?a\<lparr>races := (races ?a)(?k := (races ?a ?k)\<lparr>timer := Expired\<rparr>)\<rparr>))"
  have r: "eventCallbacks ?r = eventCallbacks ?a"
    using assms(2) a(1) by (simp add: off_def remove1_append remove1_idem)
  then have "eventCallbacks ?r ''error'' = Some (map Handler hs)"
    using a(1) assms(3) by simp
  from emit_handlers [OF this, of "Err ''Connect timeout''"] r a
  show ?thesis
    by (simp add: timer_callback_def Let_def off_def)
qed

text \<open>A settled promise stays as it is.\<close>

lemma call_settled:
  "outcome (races s k) \<noteq> Pending \<Longrightarrow> outcome (races (call c d s) k) = outcome (races s k)"
  by (induction c d s rule: call.induct)
    (auto simp: resolve_def clearTimeout_def)

lemma visit_settled:
  "outcome (races s k) \<noteq> Pending \<Longrightarrow> outcome (races (visit e d j s) k) = outcome (races s k)"
  by (simp add: visit_def call_settled split: option.splits)

lemma forEach_settled:
  "outcome (races s k) \<noteq> Pending \<Longrightarrow> outcome (races (forEach e d j n s) k) = outcome (races s k)"
  by (induction e d j n s rule: forEach.induct) (simp_all add: visit_settled)

lemma emit_settled:
  "outcome (races s k) \<noteq> Pending \<Longrightarrow> outcome (races (emit e d s) k) = outcome (races s k)"
  by (simp add: emit_def Let_def forEach_settled split: option.splits)

lemma handleEvent_settled:
  "outcome (races s k) \<noteq> Pending \<Longrightarrow> outcome (races (handleEvent ev s) k) = outcome (races s k)"
  by (cases ev) (simp_all add: emit_settled split: option.splits)

section \<open>One engine teardown per return of the count to zero\<close>

lemma run_append: "run (cs @ ds) p = run ds (run cs p)"
  by (induction cs arbitrary: p) simp_all

lemma counted_start: "counted n process_start"
  by (simp add: counted_def live_def process_start_def)

lemma no_wrap:
  assumes "counted n p" and "n < 2 ^ 32" and "i < n" and "\<not> initialized (wrappers p i)"
  shows "g_enetInitCount p + 1 \<noteq> 0" and "unat (g_enetInitCount p + 1) = Suc (unat (g_enetInitCount p))"
proof -
  from assms have "live p \<subseteq> {..<n} - {i}" by (auto simp: counted_def live_def)
  then have "card (live p) \<le> card ({..<n} - {i})" by (intro card_mono) auto
  also have "\<dots> < n" using assms(3) by (simp add: card_Diff_singleton_if)
  finally have lt: "unat (g_enetInitCount p) < n" using assms(1) by (simp add: counted_def)
  show ne: "g_enetInitCount p + 1 \<noteq> 0"
  proof
    assume "g_enetInitCount p + 1 = 0"
    then have "g_enetInitCount p = - 1" by (rule max_word_wrap)
    then have "unat (g_enetInitCount p) = 4294967295"
      by (simp add: unsigned_minus_1_eq_mask mask_eq_exp_minus_1)
    with lt assms(2) show False by simp
  qed
  then show "unat (g_enetInitCount p + 1) = Suc (unat (g_enetInitCount p))"
    using unatSuc [of "g_enetInitCount p"] by (simp add: add.commute)
qed

lemma live_zero:
  "counted n p \<Longrightarrow> (g_enetInitCount p = 0) = (live p = {})"
  by (auto simp: counted_def unat_eq_0 [symmetric] simp del: unat_eq_0)

lemma live_Initialize:
  "live (snd (Initialize i ok p))
     = (if initialized (wrappers p i) \<or> (g_enetInitCount p = 0 \<and> \<not> ok) then live p else insert i (live p))"
  by (auto simp: Initialize_def Let_def live_def)

lemma live_Deinitialize: "live (Deinitialize i p) = live p - {i}"
  by (auto simp: Deinitialize_def Let_def live_def)

lemma count_Initialize:
  "g_enetInitCount (snd (Initialize i ok p))
     = (if initialized (wrappers p i) \<or> (g_enetInitCount p = 0 \<and> \<not> ok) then g_enetInitCount p
        else g_enetInitCount p + 1)"
  by (auto simp: Initialize_def Let_def)

lemma count_Deinitialize:
  "g_enetInitCount (Deinitialize i p)
     = (if initialized (wrappers p i) then g_enetInitCount p - 1 else g_enetInitCount p)"
  by (auto simp: Deinitialize_def Let_def)

lemma counted_Initialize:
  assumes "counted n p" and "n < 2 ^ 32" and "i < n"
  shows "counted n (snd (Initialize i ok p))"
proof (cases "initialized (wrappers p i) \<or> (g_enetInitCount p = 0 \<and> \<not> ok)")
  case True
  with assms(1) show ?thesis
    by (simp add: counted_def live_Initialize count_Initialize)
next
  case False
  then have ni: "\<not> initialized (wrappers p i)" by simp
  then have "i \<notin> live p" by (simp add: live_def)
  moreover from False have "live (snd (Initialize i ok p)) = insert i (live p)"
    and "g_enetInitCount (snd (Initialize i ok p)) = g_enetInitCount p + 1"
    unfolding live_Initialize count_Initialize by presburger+
  ultimately show ?thesis
    using assms no_wrap(2) [OF assms ni] by (simp add: counted_def)
qed

lemma counted_Deinitialize:
  assumes "counted n p"
  shows "counted n (Deinitialize i p)"
proof (cases "initialized (wrappers p i)")
  case False
  then have "live p - {i} = live p" by (auto simp: live_def)
  with assms False show ?thesis
    by (simp add: counted_def live_Deinitialize count_Deinitialize)
next
  case True
  then have i: "i \<in> live p" by (simp add: live_def)
  with assms have "card (live p) \<noteq> 0" by (auto simp: counted_def)
  with assms have "g_enetInitCount p \<noteq> 0" by (auto simp: counted_def)
  then have "unat (g_enetInitCount p - 1) = unat (g_enetInitCount p) - 1"
    by (rule unat_minus_one)
  with assms True i show ?thesis
    by (auto simp: counted_def live_Deinitialize count_Deinitialize)
qed

lemma counted_exec:
  "counted n p \<Longrightarrow> n < 2 ^ 32 \<Longrightarrow> wrapper_of c < n \<Longrightarrow> counted n (exec c p)"
  by (cases c) (simp_all add: counted_Initialize counted_Deinitialize)

lemma counted_run:
  "counted n p \<Longrightarrow> n < 2 ^ 32 \<Longrightarrow> \<forall>c \<in> set cs. wrapper_of c < n \<Longrightarrow> counted n (run cs p)"
  by (induction cs arbitrary: p) (simp_all add: counted_exec)


lemma calls_Initialize:
  "engine_calls (snd (Initialize i ok p))
     = engine_calls p
       @ (if \<not> initialized (wrappers p i) \<and> g_enetInitCount p = 0 then [Enet_initialize ok] else [])"
  by (auto simp: Initialize_def Let_def)

lemma calls_Deinitialize:
  "engine_calls (Deinitialize i p)
     = engine_calls p
       @ (if host (wrappers p i) then [Enet_host_destroy i] else [])
       @ (if initialized (wrappers p i) \<and> g_enetInitCount p = 1 then [Enet_deinitialize] else [])"
  by (auto simp: Deinitialize_def Let_def)

lemma one_step_Initialize:
  assumes "counted n p" and "n < 2 ^ 32" and "i < n"
  shows "teardowns (snd (Initialize i ok p))
           = teardowns p + (if g_enetInitCount p \<noteq> 0 \<and> g_enetInitCount (snd (Initialize i ok p)) = 0
                            then 1 else 0)"
    and "engine_inits (snd (Initialize i ok p))
           = engine_inits p + (if g_enetInitCount p = 0 \<and> g_enetInitCount (snd (Initialize i ok p)) = 1
                               then 1 else 0)"
    and "init_attempts (snd (Initialize i ok p)) \<noteq> init_attempts p \<longrightarrow> g_enetInitCount p = 0"
    and "g_enetInitCount p = 0 \<and> g_enetInitCount (snd (Initialize i ok p)) \<noteq> 0
           \<longrightarrow> g_enetInitCount (snd (Initialize i ok p)) = 1"
proof -
  have nw: "\<not> initialized (wrappers p i) \<Longrightarrow> g_enetInitCount p + 1 \<noteq> 0"
    using no_wrap(1) [OF assms] by simp
  show "teardowns (snd (Initialize i ok p))
           = teardowns p + (if g_enetInitCount p \<noteq> 0 \<and> g_enetInitCount (snd (Initialize i ok p)) = 0
                            then 1 else 0)"
    using nw by (auto simp: teardowns_def calls_Initialize count_Initialize)
  show "engine_inits (snd (Initialize i ok p))
           = engine_inits p + (if g_enetInitCount p = 0 \<and> g_enetInitCount (snd (Initialize i ok p)) = 1
                               then 1 else 0)"
    by (auto simp: engine_inits_def calls_Initialize count_Initialize)
  show "init_attempts (snd (Initialize i ok p)) \<noteq> init_attempts p \<longrightarrow> g_enetInitCount p = 0"
    by (auto simp: init_attempts_def calls_Initialize)
  show "g_enetInitCount p = 0 \<and> g_enetInitCount (snd (Initialize i ok p)) \<noteq> 0
           \<longrightarrow> g_enetInitCount (snd (Initialize i ok p)) = 1"
    by (auto simp: count_Initialize)
qed

lemma one_step_Deinitialize:
  assumes "counted n p"
  shows "teardowns (Deinitialize i p)
           = teardowns p + (if g_enetInitCount p \<noteq> 0 \<and> g_enetInitCount (Deinitialize i p) = 0
                            then 1 else 0)"
    and "engine_inits (Deinitialize i p)
           = engine_inits p + (if g_enetInitCount p = 0 \<and> g_enetInitCount (Deinitialize i p) = 1
                               then 1 else 0)"
    and "init_attempts (Deinitialize i p) \<noteq> init_attempts p \<longrightarrow> g_enetInitCount p = 0"
    and "g_enetInitCount p = 0 \<and> g_enetInitCount (Deinitialize i p) \<noteq> 0
           \<longrightarrow> g_enetInitCount (Deinitialize i p) = 1"
proof -
  have z: "g_enetInitCount p = 0 \<Longrightarrow> \<not> initialized (wrappers p i)"
    using live_zero [OF assms] by (auto simp: live_def)
  have m: "g_enetInitCount p - 1 = 0 \<longleftrightarrow> g_enetInitCount p = 1"
    by auto
  show "teardowns (Deinitialize i p)
           = teardowns p + (if g_enetInitCount p \<noteq> 0 \<and> g_enetInitCount (Deinitialize i p) = 0
                            then 1 else 0)"
    using z by (auto simp: teardowns_def calls_Deinitialize count_Deinitialize m)
  show "engine_inits (Deinitialize i p)
           = engine_inits p + (if g_enetInitCount p = 0 \<and> g_enetInitCount (Deinitialize i p) = 1
                               then 1 else 0)"
    using z by (auto simp: engine_inits_def calls_Deinitialize count_Deinitialize)
  show "init_attempts (Deinitialize i p) \<noteq> init_attempts p \<longrightarrow> g_enetInitCount p = 0"
    by (auto simp: init_attempts_def calls_Deinitialize)
  show "g_enetInitCount p = 0 \<and> g_enetInitCount (Deinitialize i p) \<noteq> 0
           \<longrightarrow> g_enetInitCount (Deinitialize i p) = 1"
    using z by (auto simp: count_Deinitialize)
qed

lemma one_step:
  assumes "counted n p" and "n < 2 ^ 32" and "wrapper_of c < n"
  shows "teardowns (exec c p)
           = teardowns p + (if g_enetInitCount p \<noteq> 0 \<and> g_enetInitCount (exec c p) = 0 then 1 else 0)"
    and "engine_inits (exec c p)
           = engine_inits p + (if g_enetInitCount p = 0 \<and> g_enetInitCount (exec c p) = 1 then 1 else 0)"
    and "init_attempts (exec c p) \<noteq> init_attempts p \<longrightarrow> g_enetInitCount p = 0"
    and "g_enetInitCount p = 0 \<and> g_enetInitCount (exec c p) \<noteq> 0 \<longrightarrow> g_enetInitCount (exec c p) = 1"
proof -
  show "teardowns (exec c p)
           = teardowns p + (if g_enetInitCount p \<noteq> 0 \<and> g_enetInitCount (exec c p) = 0 then 1 else 0)"
    using assms one_step_Initialize(1) [OF assms(1,2)] one_step_Deinitialize(1) [OF assms(1)]
    by (cases c) simp_all
  show "engine_inits (exec c p)
           = engine_inits p + (if g_enetInitCount p = 0 \<and> g_enetInitCount (exec c p) = 1 then 1 else 0)"
    using assms one_step_Initialize(2) [OF assms(1,2)] one_step_Deinitialize(2) [OF assms(1)]
    by (cases c) simp_all
  show "init_attempts (exec c p) \<noteq> init_attempts p \<longrightarrow> g_enetInitCount p = 0"
    using assms one_step_Initialize(3) [OF assms(1,2)] one_step_Deinitialize(3) [OF assms(1)]
    by (cases c) simp_all
  show "g_enetInitCount p = 0 \<and> g_enetInitCount (exec c p) \<noteq> 0 \<longrightarrow> g_enetInitCount (exec c p) = 1"
    using assms one_step_Initialize(4) [OF assms(1,2)] one_step_Deinitialize(4) [OF assms(1)]
    by (cases c) simp_all
qed

lemma balance:
  assumes "n < 2 ^ 32" and "\<forall>c \<in> set cs. wrapper_of c < n"
  shows "engine_inits (run cs process_start)
           = teardowns (run cs process_start)
             + (if g_enetInitCount (run cs process_start) = 0 then 0 else 1)"
  using assms(2)
proof (induction cs rule: rev_induct)
  case Nil
  show ?case by (simp add: process_start_def engine_inits_def teardowns_def)
next
  case (snoc c cs)
  let ?p = "run cs process_start"
  from snoc.prems have cs: "\<forall>c \<in> set cs. wrapper_of c < n" and c: "wrapper_of c < n" by simp_all
  have inv: "counted n ?p" using counted_run [OF counted_start assms(1) cs] .
  note st = one_step [OF inv assms(1) c]
  from snoc.IH [OF cs] st show ?case
    by (simp add: run_append split: if_splits)
qed

text \<open>
  Claim C3. Take any sequence of \<open>initialize()\<close> and \<open>deinitialize()\<close> calls (and
  destructor runs) on the wrappers of one process, fewer than \<open>2 ^ 32\<close> of them, the
  count being a 32-bit unsigned integer, and any further call. The call runs
  \<open>enet_deinitialize\<close> exactly once if it returns the count to zero, and not at all
  otherwise. A successful \<open>enet_initialize\<close> happens exactly in a call that takes the
  count from zero to one, and \<open>enet_initialize\<close> is attempted only when the count is
  zero. So at any moment the engine has been initialised once more than torn down while
  the count is positive, and as often as torn down when it is zero; the count is the
  number of initialised wrappers.
\<close>

theorem teardown_once:
  assumes "\<forall>c \<in> set cs. wrapper_of c < 4294967295" and "wrapper_of c < 4294967295"
    and "p = run cs process_start" and "p' = exec c p"
  shows "teardowns p' = teardowns p + (if g_enetInitCount p \<noteq> 0 \<and> g_enetInitCount p' = 0 then 1 else 0) \<and>
         engine_inits p' = engine_inits p + (if g_enetInitCount p = 0 \<and> g_enetInitCount p' = 1 then 1 else 0) \<and>
         (init_attempts p' \<noteq> init_attempts p \<longrightarrow> g_enetInitCount p = 0) \<and>
         engine_inits p = teardowns p + (if g_enetInitCount p = 0 then 0 else 1) \<and>
         unat (g_enetInitCount p) = card {i. initialized (wrappers p i)}"
proof -
  have n: "(4294967295::nat) < 2 ^ 32" by simp
  have inv: "counted 4294967295 p"
    unfolding assms(3) using counted_run [OF counted_start n assms(1)] .
  note st = one_step [OF inv n assms(2), folded assms(4)]
  have b: "engine_inits p = teardowns p + (if g_enetInitCount p = 0 then 0 else 1)"
    unfolding assms(3) using balance [OF n assms(1)] .
  have c: "unat (g_enetInitCount p) = card {i. initialized (wrappers p i)}"
    using inv by (simp add: counted_def live_def)
  from st(1) st(2) st(3) b c show ?thesis by (intro conjI)
qed

theorem teardown_once_witness:
  "teardowns (run [Init 0 True, Init 1 True, Deinit 0] process_start) = 0 \<and>
   teardowns (exec (Deinit 1) (run [Init 0 True, Init 1 True, Deinit 0] process_start)) = 1 \<and>
   engine_inits (run [Init 0 True, Init 1 True, Deinit 0] process_start) = 1"
proof -
  let ?p = "run [Init 0 True, Init 1 True, Deinit 0] process_start"
  have h: "\<forall>c \<in> set [Init 0 True, Init 1 True, Deinit 0]. wrapper_of c < 4294967295"
    "wrapper_of (Deinit 1) < 4294967295"
    by simp_all
  have g: "g_enetInitCount ?p = 1" "g_enetInitCount (exec (Deinit 1) ?p) = 0"
    by (simp_all add: Initialize_def Deinitialize_def process_start_def Let_def)
  have t: "teardowns ?p = 0"
    by (simp add: Initialize_def Deinitialize_def process_start_def Let_def teardowns_def)
  from teardown_once [OF h refl refl]
  have "teardowns (exec (Deinit 1) ?p)
          = teardowns ?p + (if g_enetInitCount ?p \<noteq> 0 \<and> g_enetInitCount (exec (Deinit 1) ?p) = 0
                            then 1 else 0)"
    and "engine_inits ?p = teardowns ?p + (if g_enetInitCount ?p = 0 then 0 else 1)"
    by blast+
  then show ?thesis
    unfolding g t by simp
qed

end
